theory Spec2Isabelle
  imports Complex_Main
begin

section \<open>Python strings and numbers\<close>

text \<open>
  A Python \<open>str\<close> is modelled as a \<open>string\<close>, each \<open>char\<close> standing for the code point
  of the same number (so the model covers the strings over the code points below 256).
  A Python \<open>float\<close> is modelled as a \<open>real\<close>: rounding, infinities and NaN are not part
  of the model. Python's \<open>int\<close> is \<open>int\<close>.
\<close>

text \<open>\<open>str.isspace\<close> on one character, for the code points below 256.\<close>

definition is_space :: "char \<Rightarrow> bool" where
  "is_space c = (c \<in> set [CHR 0x09, CHR 0x0A, CHR 0x0B, CHR 0x0C, CHR 0x0D,
     CHR 0x1C, CHR 0x1D, CHR 0x1E, CHR 0x1F, CHR 0x20, CHR 0x85, CHR 0xA0])"

text \<open>\<open>s.strip()\<close>: whitespace removed at both ends, once.\<close>

definition py_strip :: "string \<Rightarrow> string" where
  "py_strip s = rev (dropWhile is_space (rev (dropWhile is_space s)))"

text \<open>\<open>s.split(c)\<close> for a one-character separator: never an empty list.\<close>

fun py_split :: "char \<Rightarrow> string \<Rightarrow> string list" where
  "py_split c [] = [[]]"
| "py_split c (x # xs) =
     (if x = c then [] # py_split c xs
      else (case py_split c xs of
              [] \<Rightarrow> [[x]]
            | w # ws \<Rightarrow> (x # w) # ws))"

text \<open>\<open>s.split(c, 1)[1]\<close>: what follows the first separator; IndexError (\<open>None\<close>) when
  the separator does not occur.\<close>

definition split1_second :: "char \<Rightarrow> string \<Rightarrow> string option" where
  "split1_second c s =
     (case dropWhile (\<lambda>x. x \<noteq> c) s of
        [] \<Rightarrow> None
      | _ # rest \<Rightarrow> Some rest)"

text \<open>\<open>sep.join(parts)\<close>.\<close>

fun py_join :: "string \<Rightarrow> string list \<Rightarrow> string" where
  "py_join sep [] = []"
| "py_join sep [x] = x"
| "py_join sep (x # y # ys) = x @ sep @ py_join sep (y # ys)"

definition startswith :: "string \<Rightarrow> string \<Rightarrow> bool" where
  "startswith s p = (take (length p) s = p)"

definition endswith :: "string \<Rightarrow> string \<Rightarrow> bool" where
  "endswith s p = (length p \<le> length s \<and> drop (length s - length p) s = p)"

text \<open>\<open>str(n)\<close> for a natural number and for an integer: decimal digits.\<close>

definition digit_char :: "nat \<Rightarrow> char" where
  "digit_char d = ''0123456789'' ! d"

fun str_nat :: "nat \<Rightarrow> string" where
  "str_nat n =
     (if n < 10 then [digit_char n]
      else str_nat (n div 10) @ [digit_char (n mod 10)])"

declare str_nat.simps [simp del]

definition str_int :: "int \<Rightarrow> string" where
  "str_int i = (if i < 0 then CHR ''-'' # str_nat (nat (- i)) else str_nat (nat i))"

text \<open>The format specification \<open>02d\<close> of an f-string: zero padding to width 2, the sign
  (if any) first and counted in the width.\<close>

definition zfill :: "nat \<Rightarrow> string \<Rightarrow> string" where
  "zfill w s = replicate (w - length s) CHR ''0'' @ s"

definition format_02d :: "int \<Rightarrow> string" where
  "format_02d i =
     (if i < 0 then CHR ''-'' # zfill 1 (str_nat (nat (- i))) else zfill 2 (str_nat (nat i)))"

text \<open>\<open>int(s)\<close> on a string: surrounding whitespace is ignored, one sign is allowed, the
  digits may be grouped by single underscores; anything else raises ValueError (\<open>None\<close>).
  The whitespace that \<open>int\<close> ignores is that of \<open>str.isspace\<close> without the four
  separators U+001C to U+001F. The limit on the number of digits (4300 by default since
  Python 3.11) is not part of the model.\<close>

definition is_int_space :: "char \<Rightarrow> bool" where
  "is_int_space c = (c \<in> set [CHR 0x09, CHR 0x0A, CHR 0x0B, CHR 0x0C, CHR 0x0D,
     CHR 0x20, CHR 0x85, CHR 0xA0])"

definition int_strip :: "string \<Rightarrow> string" where
  "int_strip s = rev (dropWhile is_int_space (rev (dropWhile is_int_space s)))"

definition is_digit :: "char \<Rightarrow> bool" where
  "is_digit c = (c \<in> set ''0123456789'')"

definition digit_val :: "char \<Rightarrow> nat" where
  "digit_val c = of_char c - 48"

definition digits_val :: "string \<Rightarrow> nat" where
  "digits_val ds = foldl (\<lambda>acc c. 10 * acc + digit_val c) 0 ds"

definition digit_group :: "string \<Rightarrow> bool" where
  "digit_group g = (g \<noteq> [] \<and> list_all is_digit g)"

definition parse_unsigned :: "string \<Rightarrow> nat option" where
  "parse_unsigned body =
     (let groups = py_split CHR ''_'' body
      in if list_all digit_group groups then Some (digits_val (concat groups)) else None)"

definition py_int :: "string \<Rightarrow> int option" where
  "py_int s =
     (case int_strip s of
        [] \<Rightarrow> None
      | c # cs \<Rightarrow>
          if c = CHR ''-'' then map_option (\<lambda>n. - int n) (parse_unsigned cs)
          else if c = CHR ''+'' then map_option int (parse_unsigned cs)
          else map_option int (parse_unsigned (c # cs)))"

text \<open>\<open>int(x)\<close> on a float truncates towards zero; \<open>x // y\<close> and \<open>x % y\<close> on floats, for
  a positive \<open>y\<close>, are the floor quotient and its remainder.\<close>

definition int_of_float :: "real \<Rightarrow> int" where
  "int_of_float x = (if 0 \<le> x then \<lfloor>x\<rfloor> else \<lceil>x\<rceil>)"

definition floordiv :: "real \<Rightarrow> real \<Rightarrow> real" where
  "floordiv x y = of_int \<lfloor>x / y\<rfloor>"

definition fmod :: "real \<Rightarrow> real \<Rightarrow> real" where
  "fmod x y = x - y * of_int \<lfloor>x / y\<rfloor>"

section \<open>utils.py\<close>

text \<open>\<open>format_duration\<close> (utils.py, lines 56 to 64).\<close>

definition format_duration :: "real \<Rightarrow> string" where
  "format_duration seconds =
     (let hours = int_of_float (floordiv seconds 3600);
          minutes = int_of_float (floordiv (fmod seconds 3600) 60);
          secs = int_of_float (fmod seconds 60)
      in if hours > 0
         then str_int hours @ '':'' @ format_02d minutes @ '':'' @ format_02d secs
         else str_int minutes @ '':'' @ format_02d secs)"

text \<open>\<open>get_transcript_path\<close> (utils.py, lines 129 to 140).\<close>

definition get_transcript_path :: "string \<Rightarrow> bool \<Rightarrow> string" where
  "get_transcript_path media_path with_timestamps =
     media_path @ (if with_timestamps then ''.transcript.json'' else ''.transcript.txt'')"

text \<open>\<open>Path(p).name\<close> (pathlib, POSIX flavour): the last component of the path, empty
  and \<open>.\<close> components being dropped; the empty string when none is left.\<close>

definition path_name :: "string \<Rightarrow> string" where
  "path_name p =
     (case filter (\<lambda>c. c \<noteq> [] \<and> c \<noteq> ''.'') (py_split CHR ''/'' p) of
        [] \<Rightarrow> []
      | c # cs \<Rightarrow> last (c # cs))"

section \<open>Files and JSON documents\<close>

text \<open>
  The file system maps a path to the text of the file there. Both files are opened in text
  mode: on POSIX writing stores the text as it is, and reading translates every
  \<open>\r\n\<close> and every remaining \<open>\r\<close> to \<open>\n\<close> (universal newlines).
\<close>

type_synonym filesystem = "string \<rightharpoonup> string"

fun universal_newlines :: "string \<Rightarrow> string" where
  "universal_newlines [] = []"
| "universal_newlines [c] = [if c = CHR 0x0D then CHR 0x0A else c]"
| "universal_newlines (c # d # cs) =
     (if c = CHR 0x0D \<and> d = CHR 0x0A then CHR 0x0A # universal_newlines cs
      else if c = CHR 0x0D then CHR 0x0A # universal_newlines (d # cs)
      else c # universal_newlines (d # cs))"

definition path_exists :: "filesystem \<Rightarrow> string \<Rightarrow> bool" where
  "path_exists fs p = (fs p \<noteq> None)"

text \<open>
  A value of the \<open>json\<close> module: what \<open>json.loads\<close> returns and \<open>json.dump\<close> takes. A dict
  is the association list of its items; it denotes the map \<open>map_of\<close> of the list.
  \<open>json.dump\<close> and \<open>json.loads\<close> themselves are the standard library's and are parameters
  of the functions below (\<open>json_loads\<close> returns \<open>None\<close> where the library raises
  JSONDecodeError).
\<close>

datatype json =
    JNull
  | JBool bool
  | JNum real
  | JStr string
  | JArr "json list"
  | JObj "(string \<times> json) list"

datatype py_exception = ValueError | TypeError | AttributeError | IndexError | JSONDecodeError

text \<open>\<open>d.get(k, default)\<close>: AttributeError unless \<open>d\<close> is a dict.\<close>

definition json_get :: "json \<Rightarrow> string \<Rightarrow> json \<Rightarrow> py_exception + json" where
  "json_get d k dflt =
     (case d of
        JObj items \<Rightarrow> (case map_of items k of None \<Rightarrow> Inr dflt | Some v \<Rightarrow> Inr v)
      | _ \<Rightarrow> Inl AttributeError)"

text \<open>\<open>d.get(k)\<close>, whose default is \<open>None\<close>.\<close>

definition json_get_none :: "json \<Rightarrow> string \<Rightarrow> py_exception + json" where
  "json_get_none d k = json_get d k JNull"

text \<open>\<open>len(v)\<close>: defined on lists, strings and dicts, TypeError otherwise.\<close>

definition json_len :: "json \<Rightarrow> py_exception + nat" where
  "json_len v =
     (case v of
        JArr xs \<Rightarrow> Inr (length xs)
      | JStr s \<Rightarrow> Inr (length s)
      | JObj items \<Rightarrow> Inr (length (remdups (map fst items)))
      | _ \<Rightarrow> Inl TypeError)"

section \<open>transcriber.py: the result record\<close>

text \<open>One entry of \<open>TranscriptionResult.words\<close>, the dict built in \<open>_extract_words\<close>.\<close>

record word_timing =
  w_word :: string
  w_start :: real
  w_end :: real
  w_confidence :: real

text \<open>\<open>TranscriptionResult\<close> (transcriber.py, lines 18 to 29).\<close>

record transcription_result =
  file_path :: string
  transcript :: string
  words :: "word_timing list option"
  duration_seconds :: real
  accuracy :: string
  diarization :: bool
  status :: string
  error_message :: "string option"
  job_id :: "string option"

section \<open>server.py: writing a transcript\<close>

definition word_json :: "word_timing \<Rightarrow> json" where
  "word_json w =
     JObj [(''word'', JStr (w_word w)), (''start'', JNum (w_start w)),
           (''end'', JNum (w_end w)), (''confidence'', JNum (w_confidence w))]"

text \<open>The dict \<open>output\<close> of the JSON branch (server.py, lines 57 to 66);
  \<open>result.words or []\<close> is the empty list for \<open>None\<close> and for an empty list.\<close>

definition json_output :: "string \<Rightarrow> string \<Rightarrow> transcription_result \<Rightarrow> json" where
  "json_output source_name timestamp result =
     JObj [(''metadata'',
             JObj [(''source'', JStr source_name),
                   (''transcribed_at'', JStr timestamp),
                   (''duration_seconds'', JNum (duration_seconds result)),
                   (''accuracy'', JStr (accuracy result))]),
           (''transcript'', JStr (transcript result)),
           (''words'',
             JArr (map word_json
               (case words result of None \<Rightarrow> [] | Some ws \<Rightarrow> if ws = [] then [] else ws)))]"

text \<open>The header of the plain-text branch (server.py, lines 71 to 77); a duration is
  falsy exactly when it is zero.\<close>

definition duration_str_of :: "real \<Rightarrow> string" where
  "duration_str_of d = (if d \<noteq> 0 then format_duration d else ''unknown'')"

definition text_header :: "string \<Rightarrow> string \<Rightarrow> string \<Rightarrow> string \<Rightarrow> string" where
  "text_header timestamp source_name duration_str acc =
     ''# Transcribed: '' @ timestamp @ ''\<newline>'' @
     ''# Source: '' @ source_name @ ''\<newline>'' @
     ''# Duration: '' @ duration_str @ ''\<newline>'' @
     ''# Accuracy: '' @ acc @ ''\<newline>'' @
     ''\<newline>''"

text \<open>\<open>write_transcript_file\<close> (server.py, lines 38 to 81). \<open>timestamp\<close> is what
  \<open>datetime.now(timezone.utc).isoformat()\<close> returned; the result is the file system after
  the write and the path written.\<close>

definition write_transcript_file ::
  "(json \<Rightarrow> string) \<Rightarrow> string \<Rightarrow> filesystem \<Rightarrow> transcription_result \<Rightarrow> bool
     \<Rightarrow> filesystem \<times> string" where
  "write_transcript_file json_dump timestamp fs result with_timestamps =
     (let output_path = get_transcript_path (file_path result) with_timestamps;
          source_name = path_name (file_path result)
      in if with_timestamps
         then (fs(output_path \<mapsto> json_dump (json_output source_name timestamp result)),
               output_path)
         else (fs(output_path \<mapsto>
                 text_header timestamp source_name
                   (duration_str_of (duration_seconds result)) (accuracy result)
                 @ transcript result),
               output_path))"

section \<open>server.py: reading a transcript back\<close>

text \<open>\<open>find_transcript\<close> (utils.py, lines 113 to 126).\<close>

definition find_transcript :: "filesystem \<Rightarrow> string \<Rightarrow> string option" where
  "find_transcript fs media_path =
     (if path_exists fs (media_path @ ''.transcript.txt'')
      then Some (media_path @ ''.transcript.txt'')
      else if path_exists fs (media_path @ ''.transcript.json'')
      then Some (media_path @ ''.transcript.json'')
      else None)"

text \<open>The three error replies of \<open>handle_get_transcript\<close>; the last carries the exception
  caught at line 419.\<close>

datatype get_transcript_error =
    NoTranscriptFound string
  | TranscriptFileNotFound string
  | FailedToRead py_exception

text \<open>The success reply: the fields of the JSON object returned. \<open>reply_word_count\<close> is
  \<open>None\<close> when the object has no such key (the plain-text branch), and a field that may
  hold \<open>None\<close> or a value read from a JSON file is a \<open>json\<close>.\<close>

record transcript_reply =
  reply_transcript :: json
  reply_source_media :: string
  reply_duration_seconds :: json
  reply_has_timestamps :: bool
  reply_word_count :: "nat option"

text \<open>The loop of lines 388 to 394: the lines after the first empty line.\<close>

fun transcript_lines_loop :: "string list \<Rightarrow> bool \<Rightarrow> string list \<Rightarrow> string list" where
  "transcript_lines_loop [] past_header acc = acc"
| "transcript_lines_loop (line # rest) past_header acc =
     (if past_header then transcript_lines_loop rest past_header (acc @ [line])
      else if line = [] then transcript_lines_loop rest True acc
      else transcript_lines_loop rest past_header acc)"

text \<open>Lines 402 to 408, for one line that starts with \<open># Duration:\<close>.\<close>

definition parse_duration_line :: "string \<Rightarrow> py_exception + int option" where
  "parse_duration_line line =
     (case split1_second CHR '':'' line of
        None \<Rightarrow> Inl IndexError
      | Some after \<Rightarrow>
          (let duration_str = py_strip after;
               parts = py_split CHR '':'' duration_str
           in if length parts = 2
              then (case (py_int (parts ! 0), py_int (parts ! 1)) of
                      (Some a, Some b) \<Rightarrow> Inr (Some (a * 60 + b))
                    | _ \<Rightarrow> Inl ValueError)
              else if length parts = 3
              then (case (py_int (parts ! 0), py_int (parts ! 1), py_int (parts ! 2)) of
                      (Some a, Some b, Some c) \<Rightarrow> Inr (Some (a * 3600 + b * 60 + c))
                    | _ \<Rightarrow> Inl ValueError)
              else Inr None))"

text \<open>The loop of lines 399 to 409 over \<open>lines[:5]\<close>: the first line that starts with
  \<open># Duration:\<close> decides.\<close>

fun duration_loop :: "string list \<Rightarrow> py_exception + int option" where
  "duration_loop [] = Inr None"
| "duration_loop (line # rest) =
     (if startswith line ''# Duration:'' then parse_duration_line line
      else duration_loop rest)"

text \<open>Lines 387 to 417: the plain-text branch, on the text read.\<close>

definition read_text_transcript :: "string \<Rightarrow> string \<Rightarrow> get_transcript_error + transcript_reply" where
  "read_text_transcript source content =
     (let lines = py_split CHR ''\<newline>'' content;
          transcript_lines = transcript_lines_loop lines False [];
          text = py_strip (py_join ''\<newline>'' transcript_lines)
      in case duration_loop (take 5 lines) of
           Inl e \<Rightarrow> Inl (FailedToRead e)
         | Inr dur \<Rightarrow>
             Inr \<lparr>reply_transcript = JStr text,
                  reply_source_media = source,
                  reply_duration_seconds =
                    (case dur of None \<Rightarrow> JNull | Some n \<Rightarrow> JNum (of_int n)),
                  reply_has_timestamps = False,
                  reply_word_count = None\<rparr>)"

text \<open>Lines 376 to 384: the JSON branch, on the text read. The entries of the reply are
  evaluated in the order written.\<close>

definition read_json_transcript ::
  "(string \<Rightarrow> json option) \<Rightarrow> string \<Rightarrow> string \<Rightarrow> get_transcript_error + transcript_reply" where
  "read_json_transcript json_loads source content =
     (case json_loads content of
        None \<Rightarrow> Inl (FailedToRead JSONDecodeError)
      | Some data \<Rightarrow>
          (case json_get data ''transcript'' (JStr []) of
             Inl e \<Rightarrow> Inl (FailedToRead e)
           | Inr t \<Rightarrow>
               (case json_get data ''metadata'' (JObj []) of
                  Inl e \<Rightarrow> Inl (FailedToRead e)
                | Inr metadata \<Rightarrow>
                    (case json_get_none metadata ''duration_seconds'' of
                       Inl e \<Rightarrow> Inl (FailedToRead e)
                     | Inr d \<Rightarrow>
                         (case json_get data ''words'' (JArr []) of
                            Inl e \<Rightarrow> Inl (FailedToRead e)
                          | Inr ws \<Rightarrow>
                              (case json_len ws of
                                 Inl e \<Rightarrow> Inl (FailedToRead e)
                               | Inr n \<Rightarrow>
                                   Inr \<lparr>reply_transcript = t,
                                        reply_source_media = source,
                                        reply_duration_seconds = d,
                                        reply_has_timestamps = True,
                                        reply_word_count = Some n\<rparr>))))))"

text \<open>\<open>handle_get_transcript\<close> (server.py, lines 340 to 423). \<open>s[:-15]\<close> drops the last 15
  characters.\<close>

definition handle_get_transcript ::
  "(string \<Rightarrow> json option) \<Rightarrow> filesystem \<Rightarrow> string \<Rightarrow> get_transcript_error + transcript_reply" where
  "handle_get_transcript json_loads fs path =
     (let located =
            (if endswith path ''.transcript.txt'' \<or> endswith path ''.transcript.json''
             then Inr (path,
                       if endswith path ''.transcript.txt''
                       then take (length path - 15) path
                       else take (length path - 16) path)
             else (case find_transcript fs path of
                     None \<Rightarrow> Inl (NoTranscriptFound path)
                   | Some tp \<Rightarrow> Inr (tp, path)))
      in case located of
           Inl e \<Rightarrow> Inl e
         | Inr (transcript_path, source) \<Rightarrow>
             (case fs transcript_path of
                None \<Rightarrow> Inl (TranscriptFileNotFound transcript_path)
              | Some stored \<Rightarrow>
                  (let content = universal_newlines stored
                   in if endswith transcript_path ''.json''
                      then read_json_transcript json_loads source content
                      else read_text_transcript source content)))"

section \<open>transcriber.py: one file\<close>

text \<open>
  The provider's result payload, as \<open>_extract_words\<close> and \<open>transcribe\<close> read it: every
  attribute is looked up with \<open>hasattr\<close> or \<open>getattr\<close> and a default, so an attribute
  is an option (\<open>None\<close>: the object has no such attribute).
\<close>

record alternative =
  content :: "string option"
  confidence :: "real option"

record result_item =
  item_type :: "string option"
  alternatives :: "alternative list option"
  start_time :: "real option"
  end_time :: "real option"

record provider_result =
  transcript_text :: "string option"
  results :: "result_item list option"

text \<open>The dict appended at lines 149 to 154.\<close>

definition word_entry :: "result_item \<Rightarrow> alternative \<Rightarrow> word_timing" where
  "word_entry item alt =
     \<lparr>w_word = (case content alt of None \<Rightarrow> [] | Some c \<Rightarrow> c),
      w_start = (case start_time item of None \<Rightarrow> 0 | Some t \<Rightarrow> t),
      w_end = (case end_time item of None \<Rightarrow> 0 | Some t \<Rightarrow> t),
      w_confidence = (case confidence alt of None \<Rightarrow> 0 | Some c \<Rightarrow> c)\<rparr>"

text \<open>The loop of lines 143 to 154, \<open>acc\<close> being the list \<open>words\<close>.\<close>

fun extract_words_loop :: "result_item list \<Rightarrow> word_timing list \<Rightarrow> word_timing list" where
  "extract_words_loop [] acc = acc"
| "extract_words_loop (item # rest) acc =
     (if item_type item = Some ''word''
      then (case (case alternatives item of None \<Rightarrow> [] | Some alts \<Rightarrow> alts) of
              [] \<Rightarrow> extract_words_loop rest acc
            | alt # _ \<Rightarrow> extract_words_loop rest (acc @ [word_entry item alt]))
      else extract_words_loop rest acc)"

text \<open>\<open>_extract_words\<close> (transcriber.py, lines 137 to 156).\<close>

definition extract_words :: "provider_result \<Rightarrow> word_timing list option" where
  "extract_words result =
     (case results result of
        None \<Rightarrow> None
      | Some items \<Rightarrow>
          (let ws = extract_words_loop items []
           in if ws \<noteq> [] then Some ws else None))"

text \<open>
  An \<open>HTTPStatusError\<close>: the status code of its response, \<open>str(error)\<close>, and what
  \<open>error.response.json()\<close> returns (\<open>None\<close> when it raises).
\<close>

record http_status_error =
  status_code :: int
  error_text :: string
  response_json :: "json option"

text \<open>A value inside an f-string: a string stands for itself, any other value for its
  \<open>str\<close>, which is Python's and a parameter here.\<close>

definition format_value :: "(json \<Rightarrow> string) \<Rightarrow> json \<Rightarrow> string" where
  "format_value py_str v = (case v of JStr s \<Rightarrow> s | _ \<Rightarrow> py_str v)"

text \<open>Lines 169 to 172: the detail of a 400 response.\<close>

definition error_detail :: "(json \<Rightarrow> string) \<Rightarrow> http_status_error \<Rightarrow> string" where
  "error_detail py_str e =
     (case response_json e of
        None \<Rightarrow> error_text e
      | Some body \<Rightarrow>
          (case json_get body ''detail'' (JStr (error_text e)) of
             Inl _ \<Rightarrow> error_text e
           | Inr v \<Rightarrow> format_value py_str v))"

text \<open>\<open>_handle_http_error\<close> (transcriber.py, lines 158 to 175).\<close>

definition handle_http_error :: "(json \<Rightarrow> string) \<Rightarrow> http_status_error \<Rightarrow> string" where
  "handle_http_error py_str e =
     (if status_code e = 429
      then ''Rate limited by Speechmatics API. Please wait and try again.''
      else if status_code e = 403
      then ''API quota exceeded or invalid API key. Check your Speechmatics account.''
      else if status_code e = 401
      then ''Invalid Speechmatics API key.''
      else if status_code e = 400
      then ''Invalid request: '' @ error_detail py_str e
      else ''API error ('' @ str_int (status_code e) @ ''): '' @ error_text e)"

text \<open>
  What the remote calls of one \<open>transcribe\<close> (\<open>submit_job\<close>, then \<open>wait_for_completion\<close>)
  do: they return a job id and a result, or one of them raises an \<open>HTTPStatusError\<close>, or
  one of them raises another \<open>Exception\<close>, of which \<open>str(e)\<close> is kept.
\<close>

datatype remote_outcome =
    Completed string provider_result
  | RaisesHTTPStatusError http_status_error
  | RaisesException string

text \<open>\<open>duration_seconds or 0\<close>.\<close>

definition or_zero :: "real option \<Rightarrow> real" where
  "or_zero d = (case d of None \<Rightarrow> 0 | Some x \<Rightarrow> if x \<noteq> 0 then x else 0)"

text \<open>\<open>transcribe\<close> (transcriber.py, lines 48 to 135), for what the handlers of lines 111
  and 123 cover: the outcome that the call returns when its remote calls return or raise
  an exception that derives from \<open>Exception\<close>. \<open>media_exists\<close> is \<open>os.path.exists\<close> on the
  media files, which do not change during a call; the language only goes into the job's
  configuration. The paths on which an exception leaves the call are those of
  \<open>transcribe_call\<close> below.\<close>

definition transcribe ::
  "(json \<Rightarrow> string) \<Rightarrow> (string \<Rightarrow> bool) \<Rightarrow> remote_outcome
     \<Rightarrow> string \<Rightarrow> string \<Rightarrow> real option \<Rightarrow> bool \<Rightarrow> transcription_result" where
  "transcribe py_str media_exists remote path acc duration diarize =
     (if \<not> media_exists path
      then \<lparr>file_path = path, transcript = [], words = None, duration_seconds = 0,
            accuracy = acc, diarization = diarize, status = ''error'',
            error_message = Some (''File not found: '' @ path), job_id = None\<rparr>
      else (case remote of
              Completed jid result \<Rightarrow>
                \<lparr>file_path = path,
                 transcript = (case transcript_text result of None \<Rightarrow> [] | Some t \<Rightarrow> t),
                 words = extract_words result,
                 duration_seconds = or_zero duration,
                 accuracy = acc, diarization = diarize, status = ''success'',
                 error_message = None, job_id = Some jid\<rparr>
            | RaisesHTTPStatusError e \<Rightarrow>
                \<lparr>file_path = path, transcript = [], words = None,
                 duration_seconds = or_zero duration,
                 accuracy = acc, diarization = diarize, status = ''error'',
                 error_message = Some (handle_http_error py_str e), job_id = None\<rparr>
            | RaisesException msg \<Rightarrow>
                \<lparr>file_path = path, transcript = [], words = None,
                 duration_seconds = or_zero duration,
                 accuracy = acc, diarization = diarize, status = ''error'',
                 error_message = Some msg, job_id = None\<rparr>))"

text \<open>
  The whole call. The client is created at line 80, before the \<open>try\<close>; the remote calls
  run inside it; line 135 closes the client in the \<open>finally\<close>. So an exception leaves the
  call when creating the client raises, when a remote call raises an exception that does
  not derive from \<open>Exception\<close> (a \<open>BaseException\<close> such as \<open>CancelledError\<close>, which
  neither handler catches), and when closing the client raises, whatever the \<open>try\<close>
  did before. For each the text of the exception is kept.
\<close>

datatype call_outcome = Handled remote_outcome | RaisesBaseException string

record client_run =
  create_raises :: "string option"
  calls :: call_outcome
  close_raises :: "string option"

datatype escaped = CreateRaised string | BaseRaised string | CloseRaised string

text \<open>The result of lines 69 to 78, for a file that does not exist.\<close>

definition not_found_result :: "string \<Rightarrow> string \<Rightarrow> bool \<Rightarrow> transcription_result" where
  "not_found_result path acc diarize =
     \<lparr>file_path = path, transcript = [], words = None, duration_seconds = 0,
      accuracy = acc, diarization = diarize, status = ''error'',
      error_message = Some (''File not found: '' @ path), job_id = None\<rparr>"

definition transcribe_call ::
  "(json \<Rightarrow> string) \<Rightarrow> (string \<Rightarrow> bool) \<Rightarrow> client_run
     \<Rightarrow> string \<Rightarrow> string \<Rightarrow> real option \<Rightarrow> bool \<Rightarrow> escaped + transcription_result" where
  "transcribe_call py_str media_exists client path acc duration diarize =
     (if \<not> media_exists path then Inr (not_found_result path acc diarize)
      else (case create_raises client of
              Some x \<Rightarrow> Inl (CreateRaised x)
            | None \<Rightarrow>
                (let body =
                       (case calls client of
                          Handled remote \<Rightarrow>
                            Inr (transcribe py_str media_exists remote path acc duration diarize)
                        | RaisesBaseException x \<Rightarrow> Inl (BaseRaised x))
                 in case close_raises client of
                      Some y \<Rightarrow> Inl (CloseRaised y)
                    | None \<Rightarrow> body)))"

section \<open>transcriber.py: a batch\<close>

text \<open>
  \<open>transcribe_batch\<close> (transcriber.py, lines 177 to 223) starts one task per item and
  awaits \<open>asyncio.gather\<close> of them. A task waits for the semaphore, runs \<open>transcribe\<close>,
  counts itself as completed, reports progress and leaves the semaphore; \<open>gather\<close> keeps
  one slot per task, in the order of the tasks, and returns the slots when every task is
  done. The event loop decides the interleaving, so an execution is a list of events:
  \<open>Acquire i\<close>, task \<open>i\<close> enters the semaphore, and \<open>Finish i\<close>, its \<open>transcribe\<close>
  returns and the rest of its body runs.
\<close>

datatype task_state = Waiting | Running | Done transcription_result

datatype event = Acquire nat | Finish nat

record batch_state =
  tasks :: "task_state list"
  completed :: nat
  progress :: "(nat \<times> nat \<times> string) list"


definition running_count :: "batch_state \<Rightarrow> nat" where
  "running_count st = length (filter (\<lambda>t. t = Running) (tasks st))"

text \<open>One event; \<open>None\<close> when the event cannot happen in this state. A task enters the
  semaphore only while fewer than \<open>k\<close> tasks are inside.\<close>

definition step ::
  "nat \<Rightarrow> (nat \<Rightarrow> transcription_result) \<Rightarrow> (string \<times> real) list
     \<Rightarrow> event \<Rightarrow> batch_state \<Rightarrow> batch_state option" where
  "step k run files ev st =
     (case ev of
        Acquire i \<Rightarrow>
          if i < length (tasks st) \<and> tasks st ! i = Waiting \<and> running_count st < k
          then Some (st\<lparr>tasks := (tasks st)[i := Running]\<rparr>)
          else None
      | Finish i \<Rightarrow>
          if i < length (tasks st) \<and> tasks st ! i = Running
          then Some (st\<lparr>tasks := (tasks st)[i := Done (run i)],
                        completed := completed st + 1,
                        progress := progress st @
                          [(completed st + 1, length files, fst (files ! i))]\<rparr>)
          else None)"

fun run_events ::
  "nat \<Rightarrow> (nat \<Rightarrow> transcription_result) \<Rightarrow> (string \<times> real) list
     \<Rightarrow> event list \<Rightarrow> batch_state \<Rightarrow> batch_state option" where
  "run_events k run files [] st = Some st"
| "run_events k run files (ev # evs) st =
     (case step k run files ev st of
        None \<Rightarrow> None
      | Some st' \<Rightarrow> run_events k run files evs st')"

definition initial_state :: "(string \<times> real) list \<Rightarrow> batch_state" where
  "initial_state files =
     \<lparr>tasks = replicate (length files) Waiting, completed = 0, progress = []\<rparr>"

text \<open>What \<open>gather\<close> returns once every task is done; \<open>None\<close> while one is not.\<close>

fun gather :: "task_state list \<Rightarrow> transcription_result list option" where
  "gather [] = Some []"
| "gather (t # ts) =
     (case t of
        Done r \<Rightarrow> map_option ((#) r) (gather ts)
      | _ \<Rightarrow> None)"


text \<open>
  The batch over the whole calls. A task whose \<open>transcribe\<close> raises leaves the semaphore
  with the exception, and \<open>gather\<close>, called without \<open>return_exceptions\<close> at line 223,
  raises the first such exception to the caller of \<open>transcribe_batch\<close> in place of a
  list: the execution ends there with the number of the item and its exception.
\<close>

datatype batch_raise = SemaphoreValueError | ItemRaised nat escaped

definition transcribe_item_call ::
  "(json \<Rightarrow> string) \<Rightarrow> (string \<Rightarrow> bool) \<Rightarrow> (nat \<Rightarrow> client_run)
     \<Rightarrow> (string \<times> real) list \<Rightarrow> string \<Rightarrow> bool \<Rightarrow> nat \<Rightarrow> escaped + transcription_result" where
  "transcribe_item_call py_str media_exists clients files acc diarize i =
     transcribe_call py_str media_exists (clients i) (fst (files ! i)) acc
       (Some (snd (files ! i))) diarize"

definition step_call ::
  "nat \<Rightarrow> (nat \<Rightarrow> escaped + transcription_result) \<Rightarrow> (string \<times> real) list
     \<Rightarrow> event \<Rightarrow> batch_state \<Rightarrow> batch_raise + batch_state option" where
  "step_call k run files ev st =
     (case ev of
        Acquire i \<Rightarrow>
          if i < length (tasks st) \<and> tasks st ! i = Waiting \<and> running_count st < k
          then Inr (Some (st\<lparr>tasks := (tasks st)[i := Running]\<rparr>))
          else Inr None
      | Finish i \<Rightarrow>
          if i < length (tasks st) \<and> tasks st ! i = Running
          then (case run i of
                  Inl x \<Rightarrow> Inl (ItemRaised i x)
                | Inr r \<Rightarrow>
                    Inr (Some (st\<lparr>tasks := (tasks st)[i := Done r],
                                  completed := completed st + 1,
                                  progress := progress st @
                                    [(completed st + 1, length files, fst (files ! i))]\<rparr>)))
          else Inr None)"

fun run_calls ::
  "nat \<Rightarrow> (nat \<Rightarrow> escaped + transcription_result) \<Rightarrow> (string \<times> real) list
     \<Rightarrow> event list \<Rightarrow> batch_state \<Rightarrow> batch_raise + batch_state option" where
  "run_calls k run files [] st = Inr (Some st)"
| "run_calls k run files (ev # evs) st =
     (case step_call k run files ev st of
        Inl e \<Rightarrow> Inl e
      | Inr None \<Rightarrow> Inr None
      | Inr (Some st') \<Rightarrow> run_calls k run files evs st')"

text \<open>
  \<open>transcribe_batch\<close> over the whole calls, along one execution: \<open>Inl\<close> when the call
  raises, \<open>Inr (Some rs)\<close> when it returns the list \<open>rs\<close>, \<open>Inr None\<close> when the events
  are not an execution that ends.
\<close>

definition transcribe_batch_call ::
  "(json \<Rightarrow> string) \<Rightarrow> (string \<Rightarrow> bool) \<Rightarrow> (nat \<Rightarrow> client_run)
     \<Rightarrow> (string \<times> real) list \<Rightarrow> string \<Rightarrow> int \<Rightarrow> bool \<Rightarrow> event list
     \<Rightarrow> batch_raise + transcription_result list option" where
  "transcribe_batch_call py_str media_exists clients files acc max_concurrent diarize evs =
     (if max_concurrent < 0 then Inl SemaphoreValueError
      else (case run_calls (nat max_concurrent)
                   (transcribe_item_call py_str media_exists clients files acc diarize)
                   files evs (initial_state files) of
              Inl e \<Rightarrow> Inl e
            | Inr None \<Rightarrow> Inr None
            | Inr (Some st) \<Rightarrow> Inr (gather (tasks st))))"

section \<open>server.py: the report of a directory\<close>

text \<open>One entry of \<open>transcripts\<close> (server.py, lines 314 to 328).\<close>

datatype transcript_entry =
    SuccessEntry string string real
  | ErrorEntry string real "string option"

record directory_report =
  files_processed :: nat
  files_failed :: nat
  transcripts :: "transcript_entry list"
  total_duration_seconds :: real
  total_duration_formatted :: string

text \<open>
  The loop of lines 309 to 328. The state is the file system and the four accumulators;
  \<open>clock n\<close> is the time stamp that the write for the \<open>n\<close>-th result reads.
\<close>

fun process_results ::
  "(json \<Rightarrow> string) \<Rightarrow> (nat \<Rightarrow> string) \<Rightarrow> bool \<Rightarrow> transcription_result list \<Rightarrow> nat
     \<Rightarrow> filesystem \<times> transcript_entry list \<times> nat \<times> nat \<times> real
     \<Rightarrow> filesystem \<times> transcript_entry list \<times> nat \<times> nat \<times> real" where
  "process_results json_dump clock with_timestamps [] n st = st"
| "process_results json_dump clock with_timestamps (result # rest) n
       (fs, entries, processed, failed, total_duration) =
     (if status result = ''success''
      then (let (fs', transcript_path) =
                  write_transcript_file json_dump (clock n) fs result with_timestamps
            in process_results json_dump clock with_timestamps rest (n + 1)
                 (fs',
                  entries @ [SuccessEntry (file_path result) transcript_path
                               (duration_seconds result)],
                  processed + 1, failed, total_duration + duration_seconds result))
      else process_results json_dump clock with_timestamps rest (n + 1)
             (fs,
              entries @ [ErrorEntry (file_path result) (duration_seconds result)
                           (error_message result)],
              processed, failed + 1, total_duration))"

text \<open>Lines 303 to 337 of \<open>handle_transcribe_directory\<close>: the loop from the initial
  accumulators, and the report returned; the file system after the writes comes with
  it.\<close>

definition report_results ::
  "(json \<Rightarrow> string) \<Rightarrow> (nat \<Rightarrow> string) \<Rightarrow> bool \<Rightarrow> filesystem \<Rightarrow> transcription_result list
     \<Rightarrow> filesystem \<times> directory_report" where
  "report_results json_dump clock with_timestamps fs rs =
     (case process_results json_dump clock with_timestamps rs 0 (fs, [], 0, 0, 0) of
        (fs', entries, processed, failed, total_duration) \<Rightarrow>
          (fs',
           \<lparr>files_processed = processed, files_failed = failed, transcripts = entries,
            total_duration_seconds = total_duration,
            total_duration_formatted = format_duration total_duration\<rparr>))"

section \<open>transcriber.py: usage\<close>

text \<open>
  A \<open>datetime\<close>: its calendar fields and its UTC offset in seconds, \<open>None\<close> for a naive
  one (no \<open>tzinfo\<close>).
\<close>

record datetime =
  dt_year :: int
  dt_month :: int
  dt_day :: int
  dt_hour :: int
  dt_minute :: int
  dt_second :: int
  dt_microsecond :: int
  dt_utcoffset :: "int option"

text \<open>Naive datetimes compare by their fields, the most significant first.\<close>

definition naive_fields :: "datetime \<Rightarrow> int list" where
  "naive_fields t =
     [dt_year t, dt_month t, dt_day t, dt_hour t, dt_minute t, dt_second t, dt_microsecond t]"

fun lex_ge :: "int list \<Rightarrow> int list \<Rightarrow> bool" where
  "lex_ge [] ys = (ys = [])"
| "lex_ge (x # xs) [] = True"
| "lex_ge (x # xs) (y # ys) = (y < x \<or> (x = y \<and> lex_ge xs ys))"

definition naive_ge :: "datetime \<Rightarrow> datetime \<Rightarrow> bool" where
  "naive_ge a b = lex_ge (naive_fields a) (naive_fields b)"

text \<open>\<open>now.replace(day=1, hour=0, minute=0, second=0, microsecond=0)\<close>.\<close>

definition month_start_of :: "datetime \<Rightarrow> datetime" where
  "month_start_of now =
     now\<lparr>dt_day := 1, dt_hour := 0, dt_minute := 0, dt_second := 0, dt_microsecond := 0\<rparr>"

text \<open>\<open>created.replace("Z", "+00:00")\<close>: every \<open>Z\<close> is replaced.\<close>

definition replace_Z :: "string \<Rightarrow> string" where
  "replace_Z s = concat (map (\<lambda>c. if c = CHR ''Z'' then ''+00:00'' else [c]) s)"

text \<open>\<open>getattr(job, 'created_at', None)\<close>: nothing, a string or a datetime; and a job
  summary with its \<open>duration\<close> attribute.\<close>

datatype created = NoCreated | CreatedStr string | CreatedDatetime datetime

record job_summary =
  created_at :: created
  duration :: "real option"

text \<open>
  Lines 244 to 256 for one job, on the two counters. \<open>fromisoformat\<close> is
  \<open>datetime.fromisoformat\<close>, \<open>None\<close> where it raises ValueError (caught at line 255).
\<close>

definition count_job ::
  "(string \<Rightarrow> datetime option) \<Rightarrow> datetime \<Rightarrow> job_summary \<Rightarrow> nat \<times> real \<Rightarrow> nat \<times> real" where
  "count_job fromisoformat month_start job counters =
     (let job_date =
            (case created_at job of
               NoCreated \<Rightarrow> None
             | CreatedStr s \<Rightarrow> if s = [] then None else fromisoformat (replace_Z s)
             | CreatedDatetime t \<Rightarrow> Some t)
      in case job_date of
           None \<Rightarrow> counters
         | Some t \<Rightarrow>
             if naive_ge (t\<lparr>dt_utcoffset := None\<rparr>) month_start
             then (fst counters + 1, snd counters + or_zero (duration job))
             else counters)"

fun usage_loop ::
  "(string \<Rightarrow> datetime option) \<Rightarrow> datetime \<Rightarrow> job_summary list \<Rightarrow> nat \<times> real \<Rightarrow> nat \<times> real" where
  "usage_loop fromisoformat month_start [] counters = counters"
| "usage_loop fromisoformat month_start (job # rest) counters =
     usage_loop fromisoformat month_start rest
       (count_job fromisoformat month_start job counters)"

record usage_report =
  hours_used_this_month :: real
  jobs_this_month :: nat

text \<open>
  \<open>get_usage\<close> (transcriber.py, lines 225 to 275). \<open>now\<close> is \<open>datetime.utcnow()\<close>, a naive
  datetime; \<open>listed\<close> is what \<open>list_jobs\<close> did (\<open>Inl\<close>: it raised, with \<open>str(e)\<close>);
  \<open>round2\<close> is \<open>round(x, 2)\<close> on floats.
\<close>

definition get_usage ::
  "(real \<Rightarrow> real) \<Rightarrow> (string \<Rightarrow> datetime option) \<Rightarrow> datetime
     \<Rightarrow> string + job_summary list \<Rightarrow> string + usage_report" where
  "get_usage round2 fromisoformat now listed =
     (case listed of
        Inl msg \<Rightarrow> Inl msg
      | Inr jobs \<Rightarrow>
          (let month_start = month_start_of now;
               counters = usage_loop fromisoformat month_start jobs (0, 0);
               hours_used = snd counters / 3600
           in Inr \<lparr>hours_used_this_month = round2 hours_used,
                   jobs_this_month = fst counters\<rparr>))"

section \<open>Notions of the specification\<close>

text \<open>Two decimal digits: a number below 100, zero-padded.\<close>

definition two_digits :: "nat \<Rightarrow> string" where
  "two_digits n = [digit_char (n div 10), digit_char (n mod 10)]"

text \<open>
  The instant of a datetime in microseconds since 1970-01-01T00:00:00 UTC: the days of
  its date in the proleptic Gregorian calendar, its time of day, less its UTC offset (a
  naive datetime counts as UTC).
\<close>

definition days_from_civil :: "int \<Rightarrow> int \<Rightarrow> int \<Rightarrow> int" where
  "days_from_civil y m d =
     (let y' = (if m \<le> 2 then y - 1 else y);
          era = y' div 400;
          yoe = y' - era * 400;
          doy = (153 * (if m > 2 then m - 3 else m + 9) + 2) div 5 + d - 1;
          doe = yoe * 365 + yoe div 4 - yoe div 100 + doy
      in era * 146097 + doe - 719468)"

definition utc_instant :: "datetime \<Rightarrow> int" where
  "utc_instant t =
     ((((days_from_civil (dt_year t) (dt_month t) (dt_day t) * 24 + dt_hour t) * 60
          + dt_minute t) * 60 + dt_second t
        - (case dt_utcoffset t of None \<Rightarrow> 0 | Some off \<Rightarrow> off)) * 1000000)
     + dt_microsecond t"


text \<open>A Success outcome, and the items that word extraction is to keep: those of type
  \<open>word\<close> with a non-empty list of alternatives.\<close>

definition is_success :: "transcription_result \<Rightarrow> bool" where
  "is_success r = (status r = ''success'')"

definition item_alternatives :: "result_item \<Rightarrow> alternative list" where
  "item_alternatives item = (case alternatives item of None \<Rightarrow> [] | Some alts \<Rightarrow> alts)"

definition usable_word :: "result_item \<Rightarrow> bool" where
  "usable_word item = (item_type item = Some ''word'' \<and> item_alternatives item \<noteq> [])"

text \<open>A client whose creation and closing return, and whose remote calls return or raise
  an exception that derives from \<open>Exception\<close>.\<close>

definition contained :: "client_run \<Rightarrow> bool" where
  "contained client =
     (create_raises client = None \<and> close_raises client = None
      \<and> (case calls client of Handled remote \<Rightarrow> True | RaisesBaseException x \<Rightarrow> False))"

text \<open>A string without a line break: neither a line feed nor a carriage return.\<close>

definition line_break_free :: "string \<Rightarrow> bool" where
  "line_break_free s = (CHR 0x0A \<notin> set s \<and> CHR 0x0D \<notin> set s)"

text \<open>Reading back the file that \<open>write_transcript_file\<close> wrote, by the path it
  returned; and the \<open>n\<close>-th line (from 0) of that file.\<close>

definition read_back ::
  "(string \<Rightarrow> json option) \<Rightarrow> filesystem \<times> string \<Rightarrow> get_transcript_error + transcript_reply" where
  "read_back json_loads written = handle_get_transcript json_loads (fst written) (snd written)"

definition written_line :: "nat \<Rightarrow> filesystem \<times> string \<Rightarrow> string option" where
  "written_line n written =
     map_option (\<lambda>text. py_split CHR 0x0A text ! n) (fst written (snd written))"

text \<open>What the usage loop counts: a job whose creation time stamp is there and is read,
  and whose date and time, as written and with the offset dropped, is not before the
  start of the month.\<close>

definition counted :: "(string \<Rightarrow> datetime option) \<Rightarrow> datetime \<Rightarrow> job_summary \<Rightarrow> bool" where
  "counted fromisoformat month_start job =
     (case created_at job of
        NoCreated \<Rightarrow> False
      | CreatedStr s \<Rightarrow>
          (case (if s = [] then None else fromisoformat (replace_Z s)) of
             None \<Rightarrow> False
           | Some t \<Rightarrow> naive_ge (t\<lparr>dt_utcoffset := None\<rparr>) month_start)
      | CreatedDatetime t \<Rightarrow> naive_ge (t\<lparr>dt_utcoffset := None\<rparr>) month_start)"

section \<open>Notions of the proofs about a batch\<close>



fun todo :: "task_state \<Rightarrow> nat" where
  "todo Waiting = 2"
| "todo Running = 1"
| "todo (Done r) = 0"

definition remaining :: "batch_state \<Rightarrow> nat" where
  "remaining st = sum_list (map todo (tasks st))"

text \<open>In every state of an execution over the whole calls, a task that is done holds the
  result that its own call returned.\<close>

definition call_inv ::
  "(nat \<Rightarrow> escaped + transcription_result) \<Rightarrow> nat \<Rightarrow> batch_state \<Rightarrow> bool" where
  "call_inv run n st =
     (length (tasks st) = n \<and> (\<forall>i<n. \<forall>r. tasks st ! i = Done r \<longrightarrow> run i = Inr r))"

section \<open>Sample data\<close>

text \<open>Three files; the remote call of the second one is answered with status 429, the
  other two complete.\<close>

definition sample_files :: "(string \<times> real) list" where
  "sample_files = [(''a.mp3'', 10), (''b.mp3'', 20), (''c.mp3'', 0)]"

definition sample_payload :: provider_result where
  "sample_payload = \<lparr>transcript_text = Some ''hi'', results = None\<rparr>"

definition sample_remote :: "nat \<Rightarrow> remote_outcome" where
  "sample_remote i =
     (if i = 1
      then RaisesHTTPStatusError
             \<lparr>status_code = 429, error_text = ''boom'', response_json = None\<rparr>
      else Completed ''j'' sample_payload)"

text \<open>An execution of the three tasks with two slots, the tasks finishing in the order
  second, third, first.\<close>

definition sample_events :: "event list" where
  "sample_events = [Acquire 0, Acquire 1, Finish 1, Acquire 2, Finish 2, Finish 0]"

text \<open>The clients of the three files: all are created and closed, and their remote calls
  are those above; and the same clients when the remote call of the second file is
  cancelled instead, and when the other two fail with a connection error instead.\<close>

definition sample_clients :: "nat \<Rightarrow> client_run" where
  "sample_clients i =
     \<lparr>create_raises = None, calls = Handled (sample_remote i), close_raises = None\<rparr>"

definition sample_clients_cancelled :: "nat \<Rightarrow> client_run" where
  "sample_clients_cancelled i =
     (if i = 1
      then \<lparr>create_raises = None, calls = RaisesBaseException ''CancelledError'',
            close_raises = None\<rparr>
      else sample_clients i)"

definition sample_clients_reset :: "nat \<Rightarrow> client_run" where
  "sample_clients_reset i =
     (if i = 1 then sample_clients i
      else \<lparr>create_raises = None, calls = Handled (RaisesException ''connection reset''),
            close_raises = None\<rparr>)"

text \<open>The outcome of a file whose remote call is answered with status 429, its duration
  being 20 seconds.\<close>

definition failed_result :: transcription_result where
  "failed_result =
     transcribe (\<lambda>_. []) (\<lambda>_. True)
       (RaisesHTTPStatusError \<lparr>status_code = 429, error_text = ''boom'', response_json = None\<rparr>)
       ''b.mp3'' ''standard'' (Some 20) False"

text \<open>A Success outcome of 125 seconds with two words, the time stamp of its write, the
  JSON document written for it, and a \<open>json.dump\<close> and \<open>json.loads\<close> that agree on
  this document.\<close>

definition sample_words :: "word_timing list" where
  "sample_words =
     [\<lparr>w_word = ''hello'', w_start = 0, w_end = 0.4, w_confidence = 1\<rparr>,
      \<lparr>w_word = ''world'', w_start = 0.5, w_end = 0.9, w_confidence = 0.98\<rparr>]"

definition sample_result :: transcription_result where
  "sample_result =
     \<lparr>file_path = ''/media/a.mp3'', transcript = '' hello\<newline>\<newline>world \<newline>'',
      words = Some sample_words, duration_seconds = 125, accuracy = ''standard'',
      diarization = False, status = ''success'', error_message = None,
      job_id = Some ''j1''\<rparr>"

definition sample_timestamp :: string where
  "sample_timestamp = ''2024-03-15T12:00:00.000000+00:00''"

definition sample_document :: json where
  "sample_document = json_output ''a.mp3'' sample_timestamp sample_result"

definition sample_dump :: "json \<Rightarrow> string" where
  "sample_dump v = (if v = sample_document then ''{sample}'' else ''{}'')"

definition sample_loads :: "string \<Rightarrow> json option" where
  "sample_loads text = (if text = ''{sample}'' then Some sample_document else None)"

text \<open>The fifteenth of March 2024 at noon as \<open>utcnow()\<close>, and a job created on the first
  of March at 00:30 at two hours east of UTC, that is on the twenty-ninth of February at
  22:30 UTC, with what \<open>fromisoformat\<close> returns for its time stamp.\<close>

definition sample_now :: datetime where
  "sample_now =
     \<lparr>dt_year = 2024, dt_month = 3, dt_day = 15, dt_hour = 12, dt_minute = 0,
      dt_second = 0, dt_microsecond = 0, dt_utcoffset = None\<rparr>"

definition sample_created :: datetime where
  "sample_created =
     \<lparr>dt_year = 2024, dt_month = 3, dt_day = 1, dt_hour = 0, dt_minute = 30,
      dt_second = 0, dt_microsecond = 0, dt_utcoffset = Some 7200\<rparr>"

definition sample_fromisoformat :: "string \<Rightarrow> datetime option" where
  "sample_fromisoformat s =
     (if s = ''2024-03-01T00:30:00+02:00'' then Some sample_created else None)"

definition sample_job :: job_summary where
  "sample_job =
     \<lparr>created_at = CreatedStr ''2024-03-01T00:30:00+02:00'', duration = Some 3600\<rparr>"

section \<open>Strings: splitting, joining, digits\<close>

lemma py_split_not_Nil: "py_split c s \<noteq> []"
  by (induction s) (auto split: list.splits)

lemma py_split_no_sep: "c \<notin> set s \<Longrightarrow> py_split c s = [s]"
  by (induction s) auto

lemma py_split_sep_Cons: "py_split c (c # s) = [] # py_split c s"
  by simp

lemma py_split_append: "c \<notin> set a \<Longrightarrow> py_split c (a @ c # b) = a # py_split c b"
  by (induction a) auto

lemma py_join_split: "py_join [c] (py_split c s) = s"
proof (induction s)
  case Nil
  show ?case by simp
next
  case (Cons x xs)
  show ?case
  proof (cases "x = c")
    case True
    obtain w ws where "py_split c xs = w # ws"
      using py_split_not_Nil [of c xs] by (cases "py_split c xs") auto
    with Cons True show ?thesis by simp
  next
    case False
    obtain w ws where ws: "py_split c xs = w # ws"
      using py_split_not_Nil [of c xs] by (cases "py_split c xs") auto
    with Cons False show ?thesis by (cases ws) auto
  qed
qed

lemma universal_newlines_append:
  "CHR 0x0D \<notin> set a \<Longrightarrow> universal_newlines (a @ b) = a @ universal_newlines b"
proof (induction a)
  case Nil
  show ?case by simp
next
  case (Cons x xs)
  then have x: "x \<noteq> CHR 0x0D" and IH: "universal_newlines (xs @ b) = xs @ universal_newlines b"
    by auto
  show ?case
  proof (cases "xs @ b")
    case Nil
    with x show ?thesis by simp
  next
    case (Cons y ys)
    have "universal_newlines (x # y # ys) = x # universal_newlines (y # ys)"
      using x by simp
    with Cons IH show ?thesis by simp
  qed
qed

lemma universal_newlines_id: "CHR 0x0D \<notin> set s \<Longrightarrow> universal_newlines s = s"
  using universal_newlines_append [of s "[]"] by simp

lemma transcript_lines_loop_past: "transcript_lines_loop ls True acc = acc @ ls"
  by (induction ls arbitrary: acc) auto

lemma py_strip_id:
  assumes "s \<noteq> []" "\<not> is_space (hd s)" "\<not> is_space (last s)"
  shows "py_strip s = s"
proof -
  from assms have a: "dropWhile is_space s = s"
    by (cases s) auto
  from assms have "dropWhile is_space (rev s) = rev s"
    by (cases "rev s") (auto simp: last_rev hd_rev)
  with a show ?thesis by (simp add: py_strip_def)
qed

lemma py_strip_space_Cons: "is_space c \<Longrightarrow> py_strip (c # s) = py_strip s"
  by (simp add: py_strip_def)

lemma is_digit_not_space: "is_digit c \<Longrightarrow> \<not> is_space c"
  by (auto simp: is_digit_def is_space_def)

lemma int_strip_id:
  assumes "s \<noteq> []" "\<not> is_int_space (hd s)" "\<not> is_int_space (last s)"
  shows "int_strip s = s"
proof -
  from assms have a: "dropWhile is_int_space s = s"
    by (cases s) auto
  from assms have "dropWhile is_int_space (rev s) = rev s"
    by (cases "rev s") (auto simp: last_rev hd_rev)
  with a show ?thesis by (simp add: int_strip_def)
qed

lemma is_digit_not_int_space: "is_digit c \<Longrightarrow> \<not> is_int_space c"
  by (auto simp: is_digit_def is_int_space_def)

lemma is_digit_digit_char: "d < 10 \<Longrightarrow> is_digit (digit_char d)"
proof -
  assume "d < 10"
  then have "d \<in> {0,1,2,3,4,5,6,7,8,9}" by auto
  then show ?thesis by (auto simp: is_digit_def digit_char_def)
qed

lemma digit_val_digit_char: "d < 10 \<Longrightarrow> digit_val (digit_char d) = d"
proof -
  assume "d < 10"
  then have "d \<in> {0,1,2,3,4,5,6,7,8,9}" by auto
  then show ?thesis by (auto simp: digit_val_def digit_char_def)
qed

lemma str_nat_not_Nil: "str_nat n \<noteq> []"
  by (subst str_nat.simps) simp

lemma str_nat_digits: "list_all is_digit (str_nat n)"
proof (induction n rule: str_nat.induct)
  case (1 n)
  show ?case
  proof (cases "n < 10")
    case True
    then show ?thesis by (subst str_nat.simps) (simp add: is_digit_digit_char)
  next
    case False
    with 1 show ?thesis by (subst str_nat.simps) (simp add: is_digit_digit_char)
  qed
qed

lemma digits_val_snoc: "digits_val (ds @ [c]) = 10 * digits_val ds + digit_val c"
  by (simp add: digits_val_def)

lemma digits_val_str_nat: "digits_val (str_nat n) = n"
proof (induction n rule: str_nat.induct)
  case (1 n)
  show ?case
  proof (cases "n < 10")
    case True
    then show ?thesis
      by (subst str_nat.simps) (simp add: digits_val_def digit_val_digit_char)
  next
    case False
    with 1 have "digits_val (str_nat (n div 10)) = n div 10" by simp
    with False show ?thesis
      by (subst str_nat.simps) (simp add: digits_val_snoc digit_val_digit_char)
  qed
qed

lemma digits_val_zeros: "digits_val (replicate k CHR ''0'' @ ds) = digits_val ds"
proof -
  have "foldl (\<lambda>acc c. 10 * acc + digit_val c) 0 (replicate k CHR ''0'') = 0"
    by (induction k) (simp_all add: digit_val_def)
  then show ?thesis by (simp add: digits_val_def)
qed

lemma py_int_digits:
  assumes "ds \<noteq> []" "list_all is_digit ds"
  shows "py_int ds = Some (int (digits_val ds))"
proof -
  obtain c cs where ds: "ds = c # cs" using assms(1) by (cases ds) auto
  have hd: "is_digit (hd ds)" and lst: "is_digit (last ds)"
    using assms by (auto simp: list_all_iff)
  then have strip: "int_strip ds = ds"
    using assms(1) by (intro int_strip_id) (auto dest: is_digit_not_int_space)
  have nosep: "CHR ''_'' \<notin> set ds"
    using assms(2) by (auto simp: list_all_iff is_digit_def)
  have "parse_unsigned ds = Some (digits_val ds)"
    using assms by (simp add: parse_unsigned_def py_split_no_sep [OF nosep] digit_group_def)
  moreover have "c \<noteq> CHR ''-''" "c \<noteq> CHR ''+''"
    using hd ds by (auto simp: is_digit_def)
  ultimately show ?thesis
    using strip ds by (simp add: py_int_def)
qed

section \<open>Formatting a duration\<close>

lemma floor_parts:
  fixes d :: real
  defines "n \<equiv> \<lfloor>d\<rfloor>"
  shows "int_of_float (floordiv d 3600) = n div 3600"
    and "int_of_float (floordiv (fmod d 3600) 60) = (n mod 3600) div 60"
    and "int_of_float (fmod d 60) = n mod 60"
proof -
  have q: "\<lfloor>d / 3600\<rfloor> = n div 3600"
    using floor_divide_real_eq_div [of 3600 d] by (simp add: n_def)
  have q60: "\<lfloor>d / 60\<rfloor> = n div 60"
    using floor_divide_real_eq_div [of 60 d] by (simp add: n_def)
  show "int_of_float (floordiv d 3600) = n div 3600"
    by (simp add: int_of_float_def floordiv_def q)
  have "\<lfloor>fmod d 3600\<rfloor> = n mod 3600"
  proof -
    have "fmod d 3600 = d - of_int (3600 * (n div 3600))"
      by (simp add: fmod_def q)
    then have "\<lfloor>fmod d 3600\<rfloor> = n - 3600 * (n div 3600)"
      by (simp only: floor_diff_of_int n_def)
    then show ?thesis by (simp add: minus_mult_div_eq_mod)
  qed
  then have "\<lfloor>fmod d 3600 / 60\<rfloor> = (n mod 3600) div 60"
    using floor_divide_real_eq_div [of 60 "fmod d 3600"] by simp
  then show "int_of_float (floordiv (fmod d 3600) 60) = (n mod 3600) div 60"
    by (simp add: int_of_float_def floordiv_def)
  have "fmod d 60 = d - of_int (60 * (n div 60))"
    by (simp add: fmod_def q60)
  then have "\<lfloor>fmod d 60\<rfloor> = n - 60 * (n div 60)"
    by (simp only: floor_diff_of_int n_def)
  then have f: "\<lfloor>fmod d 60\<rfloor> = n mod 60"
    by (simp add: minus_mult_div_eq_mod)
  have "0 \<le> fmod d 60"
  proof -
    have "0 \<le> \<lfloor>fmod d 60\<rfloor>" using f by simp
    then show ?thesis by simp
  qed
  then show "int_of_float (fmod d 60) = n mod 60"
    using f by (simp add: int_of_float_def)
qed

lemma format_duration_floor:
  "format_duration d =
     (let n = \<lfloor>d\<rfloor>; h = n div 3600; m = (n mod 3600) div 60; s = n mod 60
      in if h > 0 then str_int h @ '':'' @ format_02d m @ '':'' @ format_02d s
         else str_int m @ '':'' @ format_02d s)"
  by (simp add: format_duration_def floor_parts Let_def)

lemma format_02d_two_digits: "n < 100 \<Longrightarrow> format_02d (int n) = two_digits n"
proof (cases "n < 10")
  case True
  then show ?thesis
    by (simp add: format_02d_def zfill_def str_nat.simps [of n] two_digits_def digit_char_def)
next
  case False
  assume "n < 100"
  with False have "n div 10 < 10" by simp
  with False show ?thesis
    by (simp add: format_02d_def zfill_def str_nat.simps [of n] str_nat.simps [of "n div 10"] two_digits_def)
qed

lemma format_duration_of_nat:
  "format_duration (real s) =
     (let h = s div 3600; m = (s mod 3600) div 60; sec = s mod 60
      in if h > 0 then str_nat h @ '':'' @ two_digits m @ '':'' @ two_digits sec
         else str_nat m @ '':'' @ two_digits sec)"
proof -
  have m: "(int s mod 3600) div 60 = int ((s mod 3600) div 60)"
    by (simp add: zmod_int zdiv_int)
  have sec: "int s mod 60 = int (s mod 60)" by (simp add: zmod_int)
  have h: "int s div 3600 = int (s div 3600)" by (simp add: zdiv_int)
  have lt: "(s mod 3600) div 60 < 100" "s mod 60 < 100"
    by (simp_all add: less_mult_imp_div_less)
  show ?thesis
    unfolding format_duration_floor Let_def floor_of_nat m sec h
    by (simp add: format_02d_two_digits lt str_int_def)
qed

text \<open>
  Claim C3. For a whole number \<open>s\<close> of seconds, \<open>format_duration\<close> returns the hours, the
  minutes in two digits and the seconds in two digits when the hours \<open>s div 3600\<close> are
  positive, and the minutes and the seconds in two digits otherwise; the minutes are
  \<open>(s mod 3600) div 60\<close> and the seconds \<open>s mod 60\<close>. So 45 gives \<open>0:45\<close>, 125 gives
  \<open>2:05\<close> and 3725 gives \<open>1:02:05\<close>.
\<close>

theorem format_duration_whole_seconds:
  "format_duration (real s) =
           (let h = s div 3600; m = (s mod 3600) div 60; sec = s mod 60
            in if h > 0 then str_nat h @ '':'' @ two_digits m @ '':'' @ two_digits sec
               else str_nat m @ '':'' @ two_digits sec)
         \<and> format_duration 45 = ''0:45''
         \<and> format_duration 125 = ''2:05''
         \<and> format_duration 3725 = ''1:02:05''"
proof -
  have e1: "format_duration 45 = ''0:45''"
    using format_duration_of_nat [of 45] by (simp add: str_nat.simps two_digits_def digit_char_def)
  have e2: "format_duration 125 = ''2:05''"
    using format_duration_of_nat [of 125] by (simp add: str_nat.simps two_digits_def digit_char_def)
  have e3: "format_duration 3725 = ''1:02:05''"
    using format_duration_of_nat [of 3725] by (simp add: str_nat.simps two_digits_def digit_char_def)
  from format_duration_of_nat [of s] e1 e2 e3 show ?thesis by blast
qed

section \<open>A batch: order and isolation\<close>




lemma run_events_append:
  "run_events k run files (a @ b) st =
     (case run_events k run files a st of
        None \<Rightarrow> None
      | Some st' \<Rightarrow> run_events k run files b st')"
  by (induction a arbitrary: st) (auto split: option.splits)

lemma gather_Some:
  "gather ts = Some rs \<Longrightarrow> length rs = length ts \<and> (\<forall>i<length ts. ts ! i = Done (rs ! i))"
proof (induction ts arbitrary: rs)
  case Nil
  then show ?case by simp
next
  case (Cons t ts)
  show ?case
  proof (cases t)
    case (Done r)
    with Cons.prems obtain rs' where rs': "gather ts = Some rs'" "rs = r # rs'" by auto
    from Cons.IH [OF rs'(1)]
    have "length rs' = length ts" "\<forall>i<length ts. ts ! i = Done (rs' ! i)" by auto
    with rs' Done show ?thesis by (auto simp: nth_Cons split: nat.splits)
  next
    case Waiting
    with Cons.prems show ?thesis by simp
  next
    case Running
    with Cons.prems show ?thesis by simp
  qed
qed

lemma gather_None:
  "gather ts = None \<Longrightarrow> \<exists>i<length ts. ts ! i = Waiting \<or> ts ! i = Running"
proof (induction ts)
  case Nil
  then show ?case by simp
next
  case (Cons t ts)
  show ?case
  proof (cases t)
    case (Done r)
    with Cons.prems have "gather ts = None" by simp
    from Cons.IH [OF this]
    obtain i where "i < length ts" "ts ! i = Waiting \<or> ts ! i = Running" by auto
    then have "Suc i < length (t # ts) \<and>
        ((t # ts) ! Suc i = Waiting \<or> (t # ts) ! Suc i = Running)" by simp
    then show ?thesis by blast
  next
    case Waiting
    then have "0 < length (t # ts) \<and> (t # ts) ! 0 = Waiting" by simp
    then show ?thesis by blast
  next
    case Running
    then have "0 < length (t # ts) \<and> (t # ts) ! 0 = Running" by simp
    then show ?thesis by blast
  qed
qed


lemma sum_todo_update:
  "i < length ts \<Longrightarrow>
     sum_list (map todo (ts[i := t])) + todo (ts ! i) = sum_list (map todo ts) + todo t"
proof (induction ts arbitrary: i)
  case Nil
  then show ?case by simp
next
  case (Cons a ts)
  show ?case
  proof (cases i)
    case 0
    then show ?thesis by simp
  next
    case (Suc j)
    with Cons.prems have "j < length ts" by simp
    from Cons.IH [OF this] Suc show ?thesis by simp
  qed
qed

lemma remaining_update:
  assumes "i < length (tasks st)"
  shows "remaining (st\<lparr>tasks := (tasks st)[i := t]\<rparr>) + todo (tasks st ! i)
           = remaining st + todo t"
  using sum_todo_update [OF assms] by (simp add: remaining_def)

lemma running_count_zero:
  "(\<forall>j<length (tasks st). tasks st ! j \<noteq> Running) \<Longrightarrow> running_count st = 0"
  by (auto simp: running_count_def filter_empty_conv in_set_conv_nth)

lemma progress_step:
  assumes k: "0 < k" and pending: "gather (tasks st) = None"
  shows "\<exists>ev st'. step k run files ev st = Some st' \<and> remaining st' < remaining st"
proof (cases "\<exists>j<length (tasks st). tasks st ! j = Running")
  case True
  then obtain j where j: "j < length (tasks st)" "tasks st ! j = Running" by blast
  let ?st' = "st\<lparr>tasks := (tasks st)[j := Done (run j)],
                 completed := completed st + 1,
                 progress := progress st @ [(completed st + 1, length files, fst (files ! j))]\<rparr>"
  have s: "step k run files (Finish j) st = Some ?st'"
    using j by (simp add: step_def)
  have "remaining ?st' = remaining (st\<lparr>tasks := (tasks st)[j := Done (run j)]\<rparr>)"
    by (simp add: remaining_def)
  with remaining_update [OF j(1), of "Done (run j)"] j(2)
  have "remaining ?st' < remaining st" by simp
  with s show ?thesis by blast
next
  case False
  then have none: "\<forall>j<length (tasks st). tasks st ! j \<noteq> Running" by blast
  from gather_None [OF pending] none
  obtain i where i: "i < length (tasks st)" "tasks st ! i = Waiting" by blast
  let ?st' = "st\<lparr>tasks := (tasks st)[i := Running]\<rparr>"
  have s: "step k run files (Acquire i) st = Some ?st'"
    using i k running_count_zero [OF none] by (simp add: step_def)
  from remaining_update [OF i(1), of Running] i(2)
  have "remaining ?st' < remaining st" by simp
  with s show ?thesis by blast
qed

lemma can_complete:
  assumes k: "0 < k"
  shows "\<exists>evs st'. run_events k run files evs st = Some st' \<and> gather (tasks st') \<noteq> None"
proof (induction "remaining st" arbitrary: st rule: less_induct)
  case less
  show ?case
  proof (cases "gather (tasks st)")
    case (Some rs)
    then have "run_events k run files [] st = Some st \<and> gather (tasks st) \<noteq> None" by simp
    then show ?thesis by blast
  next
    case None
    from progress_step [OF k None]
    obtain ev st1 where st1: "step k run files ev st = Some st1" "remaining st1 < remaining st"
      by blast
    from less [OF st1(2)]
    obtain evs st' where "run_events k run files evs st1 = Some st'" "gather (tasks st') \<noteq> None"
      by blast
    with st1(1) have "run_events k run files (ev # evs) st = Some st' \<and> gather (tasks st') \<noteq> None"
      by simp
    then show ?thesis by blast
  qed
qed



lemma file_path_transcribe [simp]:
  "file_path (transcribe py_str media_exists remote path acc d diarize) = path"
  by (simp add: transcribe_def split: remote_outcome.splits)





subsection \<open>The batch over the whole calls\<close>

lemma transcribe_not_found:
  "\<not> media_exists path \<Longrightarrow>
     transcribe py_str media_exists remote path acc d diarize = not_found_result path acc diarize"
  by (simp add: transcribe_def not_found_result_def)

lemma transcribe_call_contained:
  assumes "contained client"
  shows "\<exists>remote. calls client = Handled remote
           \<and> transcribe_call py_str media_exists client path acc d diarize
               = Inr (transcribe py_str media_exists remote path acc d diarize)"
proof -
  from assms obtain remote where h: "calls client = Handled remote"
    and c: "create_raises client = None" "close_raises client = None"
    by (cases "calls client") (auto simp: contained_def)
  have "transcribe_call py_str media_exists client path acc d diarize
      = Inr (transcribe py_str media_exists remote path acc d diarize)"
    by (simp add: transcribe_call_def h c transcribe_not_found)
  with h show ?thesis by blast
qed

lemma transcribe_call_returned:
  assumes "transcribe_call py_str media_exists client path acc d diarize = Inr r"
  shows "file_path r = path
       \<and> (case calls client of
            Handled (Completed jid result) \<Rightarrow>
              status r = (if media_exists path then ''success'' else ''error'')
          | Handled (RaisesHTTPStatusError e) \<Rightarrow>
              status r = ''error''
              \<and> error_message r
                  = Some (if media_exists path then handle_http_error py_str e
                          else ''File not found: '' @ path)
          | Handled (RaisesException msg) \<Rightarrow>
              status r = ''error''
              \<and> error_message r
                  = Some (if media_exists path then msg else ''File not found: '' @ path)
          | RaisesBaseException x \<Rightarrow>
              status r = ''error''
              \<and> error_message r = Some (''File not found: '' @ path))"
proof (cases "media_exists path")
  case False
  with assms have "r = not_found_result path acc diarize"
    by (simp add: transcribe_call_def)
  with False show ?thesis
    by (simp add: not_found_result_def split: call_outcome.splits remote_outcome.splits)
next
  case True
  with assms obtain remote where h: "calls client = Handled remote"
    and r: "r = transcribe py_str media_exists remote path acc d diarize"
    by (cases "calls client")
       (auto simp: transcribe_call_def Let_def split: option.splits)
  from True show ?thesis
    unfolding h r
    by (simp add: transcribe_def split: remote_outcome.splits)
qed

lemma step_call_sim:
  assumes "\<forall>i<length (tasks st). run i = Inr (run' i)"
  shows "step_call k run files ev st = Inr (step k run' files ev st)"
  using assms by (cases ev) (simp_all add: step_call_def step_def)

lemma step_length:
  "step k run files ev st = Some st' \<Longrightarrow> length (tasks st') = length (tasks st)"
  by (cases ev) (auto simp: step_def split: if_splits)

lemma run_calls_sim:
  assumes "\<forall>i<length (tasks st). run i = Inr (run' i)"
  shows "run_calls k run files evs st = Inr (run_events k run' files evs st)"
  using assms
proof (induction evs arbitrary: st)
  case Nil
  show ?case by simp
next
  case (Cons ev evs)
  show ?case
  proof (cases "step k run' files ev st")
    case None
    then show ?thesis
      by (simp add: step_call_sim [OF Cons.prems])
  next
    case (Some st')
    from step_length [OF Some] Cons.prems
    have "\<forall>i<length (tasks st'). run i = Inr (run' i)" by simp
    from Cons.IH [OF this] Some show ?thesis
      by (simp add: step_call_sim [OF Cons.prems])
  qed
qed

lemma run_calls_append:
  "run_calls k run files (a @ b) st =
     (case run_calls k run files a st of
        Inl e \<Rightarrow> Inl e
      | Inr None \<Rightarrow> Inr None
      | Inr (Some st') \<Rightarrow> run_calls k run files b st')"
  by (induction a arbitrary: st) (auto split: sum.splits option.splits)

lemma initial_call_inv: "call_inv run (length files) (initial_state files)"
  by (simp add: call_inv_def initial_state_def)

lemma step_call_inv:
  assumes "step_call k run files ev st = Inr (Some st')" and "call_inv run n st"
  shows "call_inv run n st'"
proof (cases ev)
  case (Acquire i)
  with assms show ?thesis
    by (auto simp: step_call_def call_inv_def nth_list_update split: if_splits)
next
  case (Finish i)
  with assms show ?thesis
    by (auto simp: step_call_def call_inv_def nth_list_update split: if_splits sum.splits)
qed

lemma run_calls_inv:
  "run_calls k run files evs st = Inr (Some st') \<Longrightarrow> call_inv run n st
     \<Longrightarrow> call_inv run n st'"
proof (induction evs arbitrary: st)
  case Nil
  then show ?case by simp
next
  case (Cons ev evs)
  from Cons.prems(1) obtain st1 where s: "step_call k run files ev st = Inr (Some st1)"
    and r: "run_calls k run files evs st1 = Inr (Some st')"
    by (auto split: sum.splits option.splits)
  from step_call_inv [OF s Cons.prems(2)] have "call_inv run n st1" .
  from Cons.IH [OF r this] show ?case .
qed

lemma batch_call_returned:
  assumes "transcribe_batch_call py_str media_exists clients files acc k diarize evs
             = Inr (Some rs)"
  shows "length rs = length files"
    and "j < length files \<Longrightarrow>
           transcribe_item_call py_str media_exists clients files acc diarize j = Inr (rs ! j)"
proof -
  let ?run = "transcribe_item_call py_str media_exists clients files acc diarize"
  from assms obtain st where
    st: "run_calls (nat k) ?run files evs (initial_state files) = Inr (Some st)"
    and g: "gather (tasks st) = Some rs"
    by (auto simp: transcribe_batch_call_def split: if_splits sum.splits option.splits)
  from run_calls_inv [OF st initial_call_inv]
  have inv: "call_inv ?run (length files) st" .
  from gather_Some [OF g] have len: "length rs = length (tasks st)"
    and dn: "\<forall>i<length (tasks st). tasks st ! i = Done (rs ! i)" by auto
  from inv len show "length rs = length files" by (simp add: call_inv_def)
  assume "j < length files"
  with inv dn show "?run j = Inr (rs ! j)" by (simp add: call_inv_def)
qed

lemma contained_item_calls:
  assumes "\<forall>i<length files. contained (clients i)"
  shows "\<forall>i<length (tasks (initial_state files)).
           transcribe_item_call py_str media_exists clients files acc diarize i
             = Inr (projr (transcribe_item_call py_str media_exists clients files acc diarize i))"
proof (intro allI impI)
  fix i
  assume "i < length (tasks (initial_state files))"
  then have "contained (clients i)" using assms by (simp add: initial_state_def)
  from transcribe_call_contained [OF this]
  obtain r where "transcribe_item_call py_str media_exists clients files acc diarize i = Inr r"
    unfolding transcribe_item_call_def by blast
  then show "transcribe_item_call py_str media_exists clients files acc diarize i
      = Inr (projr (transcribe_item_call py_str media_exists clients files acc diarize i))"
    by simp
qed

lemma batch_call_completes:
  assumes k: "1 \<le> k" and c: "\<forall>i<length files. contained (clients i)"
    and reached: "run_calls (nat k)
        (transcribe_item_call py_str media_exists clients files acc diarize)
        files evs (initial_state files) = Inr (Some st)"
  shows "\<exists>evs' rs. transcribe_batch_call py_str media_exists clients files acc k diarize
                     (evs @ evs') = Inr (Some rs)"
proof -
  let ?run = "transcribe_item_call py_str media_exists clients files acc diarize"
  let ?run' = "\<lambda>i. projr (?run i)"
  note sim = run_calls_sim [OF contained_item_calls [OF c], of "nat k" py_str media_exists acc
      diarize files]
  from reached have old: "run_events (nat k) ?run' files evs (initial_state files) = Some st"
    by (simp add: sim)
  from k have "0 < nat k" by simp
  from can_complete [OF this, of ?run' files st]
  obtain evs' st' where e: "run_events (nat k) ?run' files evs' st = Some st'"
    and g: "gather (tasks st') \<noteq> None" by blast
  from g obtain rs where rs: "gather (tasks st') = Some rs" by auto
  have "run_events (nat k) ?run' files (evs @ evs') (initial_state files) = Some st'"
    using old e by (simp add: run_events_append)
  then have "run_calls (nat k) ?run files (evs @ evs') (initial_state files) = Inr (Some st')"
    by (simp add: sim)
  with rs k have "transcribe_batch_call py_str media_exists clients files acc k diarize
      (evs @ evs') = Inr (Some rs)"
    by (simp add: transcribe_batch_call_def)
  then show ?thesis by blast
qed

lemma batch_call_never_raises:
  assumes k: "1 \<le> k" and c: "\<forall>i<length files. contained (clients i)"
  shows "transcribe_batch_call py_str media_exists clients files acc k diarize evs \<noteq> Inl e"
proof -
  note sim = run_calls_sim [OF contained_item_calls [OF c], of "nat k" py_str media_exists acc
      diarize files]
  from k show ?thesis
    by (simp add: transcribe_batch_call_def sim split: option.splits)
qed

lemma batch_call_raises:
  assumes k: "1 \<le> k"
    and reached: "run_calls (nat k)
        (transcribe_item_call py_str media_exists clients files acc diarize)
        files evs (initial_state files) = Inr (Some st)"
    and i: "i < length files" "tasks st ! i = Running"
    and x: "transcribe_item_call py_str media_exists clients files acc diarize i = Inl x"
  shows "transcribe_batch_call py_str media_exists clients files acc k diarize
           (evs @ Finish i # others) = Inl (ItemRaised i x)"
proof -
  let ?run = "transcribe_item_call py_str media_exists clients files acc diarize"
  from run_calls_inv [OF reached initial_call_inv]
  have "length (tasks st) = length files" by (simp add: call_inv_def)
  with i x have "step_call (nat k) ?run files (Finish i) st = Inl (ItemRaised i x)"
    by (simp add: step_call_def)
  then have "run_calls (nat k) ?run files (evs @ Finish i # others) (initial_state files)
      = Inl (ItemRaised i x)"
    using reached by (simp add: run_calls_append)
  with k show ?thesis by (simp add: transcribe_batch_call_def)
qed

text \<open>
  Claim C8, as amended. Take a batch with at least one slot. When every item's client is
  created and closed without an exception and every exception that an item's remote
  calls raise derives from \<open>Exception\<close>, every execution can be continued to one that
  returns, and no execution raises. Whenever a batch returns, the list has one result per
  item, and the result at position \<open>j\<close> is what the call for item \<open>j\<close> returned: it is
  the same in any other returned batch over the same files whose clients agree at \<open>j\<close>,
  it has the status \<open>error\<close> and the message of the exception when the remote call of an
  existing file raised (the classified message for an HTTP status error), the status
  \<open>success\<close> when it completed, and reports a file that does not exist as not found. And
  when the call of a running item raises, because its remote call raised an exception
  that does not derive from \<open>Exception\<close> or because creating or closing its client
  raised, the batch raises that exception in place of a list.
\<close>

theorem batch_failure_isolation:
  assumes "1 \<le> max_concurrent"
  shows
    "((\<forall>i<length files. contained (clients i)) \<longrightarrow>
        (\<forall>evs st.
            run_calls (nat max_concurrent)
              (transcribe_item_call py_str media_exists clients files acc diarize)
              files evs (initial_state files) = Inr (Some st)
            \<longrightarrow> (\<exists>evs' rs.
                   transcribe_batch_call py_str media_exists clients files acc max_concurrent
                     diarize (evs @ evs') = Inr (Some rs)))
        \<and> (\<forall>evs e.
              transcribe_batch_call py_str media_exists clients files acc max_concurrent
                diarize evs \<noteq> Inl e))
     \<and> (\<forall>evs rs.
          transcribe_batch_call py_str media_exists clients files acc max_concurrent
            diarize evs = Inr (Some rs)
          \<longrightarrow> length rs = length files
              \<and> (\<forall>j<length files.
                    transcribe_item_call py_str media_exists clients files acc diarize j
                      = Inr (rs ! j)
                    \<and> file_path (rs ! j) = fst (files ! j)
                    \<and> (\<forall>clients' k' evs' rs'.
                          transcribe_batch_call py_str media_exists clients' files acc k'
                            diarize evs' = Inr (Some rs')
                          \<and> clients' j = clients j
                          \<longrightarrow> rs' ! j = rs ! j)
                    \<and> (case calls (clients j) of
                          Handled (Completed jid result) \<Rightarrow>
                            status (rs ! j)
                              = (if media_exists (fst (files ! j)) then ''success''
                                 else ''error'')
                        | Handled (RaisesHTTPStatusError e) \<Rightarrow>
                            status (rs ! j) = ''error''
                            \<and> error_message (rs ! j)
                                = Some (if media_exists (fst (files ! j))
                                        then handle_http_error py_str e
                                        else ''File not found: '' @ fst (files ! j))
                        | Handled (RaisesException msg) \<Rightarrow>
                            status (rs ! j) = ''error''
                            \<and> error_message (rs ! j)
                                = Some (if media_exists (fst (files ! j)) then msg
                                        else ''File not found: '' @ fst (files ! j))
                        | RaisesBaseException x \<Rightarrow>
                            status (rs ! j) = ''error''
                            \<and> error_message (rs ! j)
                                = Some (''File not found: '' @ fst (files ! j)))))
     \<and> (\<forall>evs st i x others.
          run_calls (nat max_concurrent)
            (transcribe_item_call py_str media_exists clients files acc diarize)
            files evs (initial_state files) = Inr (Some st)
          \<and> i < length files \<and> tasks st ! i = Running
          \<and> transcribe_item_call py_str media_exists clients files acc diarize i = Inl x
          \<longrightarrow> transcribe_batch_call py_str media_exists clients files acc max_concurrent
                diarize (evs @ Finish i # others) = Inl (ItemRaised i x))"
proof (intro conjI impI allI)
  fix evs st
  assume "\<forall>i<length files. contained (clients i)"
    and "run_calls (nat max_concurrent)
           (transcribe_item_call py_str media_exists clients files acc diarize)
           files evs (initial_state files) = Inr (Some st)"
  then show "\<exists>evs' rs.
      transcribe_batch_call py_str media_exists clients files acc max_concurrent
        diarize (evs @ evs') = Inr (Some rs)"
    using assms by (intro batch_call_completes)
next
  fix evs e
  assume "\<forall>i<length files. contained (clients i)"
  then show "transcribe_batch_call py_str media_exists clients files acc max_concurrent
      diarize evs \<noteq> Inl e"
    using assms by (intro batch_call_never_raises)
next
  fix evs rs
  assume "transcribe_batch_call py_str media_exists clients files acc max_concurrent
      diarize evs = Inr (Some rs)"
  then show "length rs = length files"
    by (rule batch_call_returned(1))
next
  fix evs rs j
  assume r: "transcribe_batch_call py_str media_exists clients files acc max_concurrent
      diarize evs = Inr (Some rs)"
    and j: "j < length files"
  from batch_call_returned(2) [OF r j]
  show own: "transcribe_item_call py_str media_exists clients files acc diarize j
      = Inr (rs ! j)" .
  note out = transcribe_call_returned [OF own [unfolded transcribe_item_call_def]]
  from out show "file_path (rs ! j) = fst (files ! j)" by blast
  from out show "case calls (clients j) of
      Handled (Completed jid result) \<Rightarrow>
        status (rs ! j) = (if media_exists (fst (files ! j)) then ''success'' else ''error'')
    | Handled (RaisesHTTPStatusError e) \<Rightarrow>
        status (rs ! j) = ''error''
        \<and> error_message (rs ! j)
            = Some (if media_exists (fst (files ! j)) then handle_http_error py_str e
                    else ''File not found: '' @ fst (files ! j))
    | Handled (RaisesException msg) \<Rightarrow>
        status (rs ! j) = ''error''
        \<and> error_message (rs ! j)
            = Some (if media_exists (fst (files ! j)) then msg
                    else ''File not found: '' @ fst (files ! j))
    | RaisesBaseException x \<Rightarrow>
        status (rs ! j) = ''error''
        \<and> error_message (rs ! j) = Some (''File not found: '' @ fst (files ! j))"
    by blast
  fix clients' k' evs' rs'
  assume "transcribe_batch_call py_str media_exists clients' files acc k' diarize evs'
            = Inr (Some rs')
          \<and> clients' j = clients j"
  then have r': "transcribe_batch_call py_str media_exists clients' files acc k' diarize evs'
            = Inr (Some rs')"
    and same: "clients' j = clients j" by simp_all
  from batch_call_returned(2) [OF r' j]
  have "transcribe_item_call py_str media_exists clients' files acc diarize j = Inr (rs' ! j)" .
  with own same show "rs' ! j = rs ! j"
    by (simp add: transcribe_item_call_def)
next
  fix evs st i x others
  assume "run_calls (nat max_concurrent)
            (transcribe_item_call py_str media_exists clients files acc diarize)
            files evs (initial_state files) = Inr (Some st)
          \<and> i < length files \<and> tasks st ! i = Running
          \<and> transcribe_item_call py_str media_exists clients files acc diarize i = Inl x"
  then have reach: "run_calls (nat max_concurrent)
            (transcribe_item_call py_str media_exists clients files acc diarize)
            files evs (initial_state files) = Inr (Some st)"
    and i: "i < length files" "tasks st ! i = Running"
    and x: "transcribe_item_call py_str media_exists clients files acc diarize i = Inl x"
    by simp_all
  from batch_call_raises [OF assms reach i x]
  show "transcribe_batch_call py_str media_exists clients files acc max_concurrent
      diarize (evs @ Finish i # others) = Inl (ItemRaised i x)" .
qed

lemma sample_call_returns:
  "\<exists>rs. transcribe_batch_call (\<lambda>_. []) (\<lambda>_. True) sample_clients sample_files ''standard'' 2
          False sample_events = Inr (Some rs)"
  by (simp add: transcribe_batch_call_def initial_state_def step_call_def running_count_def
      sample_files_def sample_events_def transcribe_item_call_def transcribe_call_def
      sample_clients_def)

lemma sample_reset_returns:
  "\<exists>rs. transcribe_batch_call (\<lambda>_. []) (\<lambda>_. True) sample_clients_reset sample_files
          ''standard'' 3 False [Acquire 2, Acquire 1, Acquire 0, Finish 0, Finish 1, Finish 2]
        = Inr (Some rs)"
  by (simp add: transcribe_batch_call_def initial_state_def step_call_def running_count_def
      sample_files_def transcribe_item_call_def transcribe_call_def
      sample_clients_def sample_clients_reset_def)

theorem batch_failure_isolation_witness:
  "(1::int) \<le> 2
   \<and> contained (sample_clients 0) \<and> contained (sample_clients 1)
   \<and> contained (sample_clients 2)
   \<and> (\<exists>rs rs'.
        transcribe_batch_call (\<lambda>_. []) (\<lambda>_. True) sample_clients sample_files ''standard'' 2
          False sample_events = Inr (Some rs)
        \<and> transcribe_batch_call (\<lambda>_. []) (\<lambda>_. True) sample_clients_reset sample_files
            ''standard'' 3 False [Acquire 2, Acquire 1, Acquire 0, Finish 0, Finish 1, Finish 2]
          = Inr (Some rs')
        \<and> sample_clients_reset 1 = sample_clients 1
        \<and> length rs = 3
        \<and> rs' ! 1 = rs ! 1
        \<and> status (rs ! 0) = ''success''
        \<and> status (rs ! 1) = ''error''
        \<and> error_message (rs ! 1)
            = Some ''Rate limited by Speechmatics API. Please wait and try again.''
        \<and> status (rs ! 2) = ''success'')
   \<and> transcribe_batch_call (\<lambda>_. []) (\<lambda>_. True) sample_clients sample_files ''standard'' 2
        False [Acquire 0, Acquire 1] \<noteq> Inl (ItemRaised 1 (BaseRaised ''CancelledError''))
   \<and> transcribe_batch_call (\<lambda>_. []) (\<lambda>_. True) sample_clients_cancelled sample_files
        ''standard'' 2 False ([Acquire 0, Acquire 1] @ Finish 1 # [Acquire 2])
       = Inl (ItemRaised 1 (BaseRaised ''CancelledError''))"
proof -
  have k: "(1::int) \<le> 2" by simp
  have c: "contained (sample_clients 0)" "contained (sample_clients 1)"
    "contained (sample_clients 2)"
    by (simp_all add: contained_def sample_clients_def)
  have all: "\<forall>i<length sample_files. contained (sample_clients i)"
    by (simp add: contained_def sample_clients_def)
  note t = batch_failure_isolation [OF k, where py_str = "\<lambda>_. []"
      and media_exists = "\<lambda>_. True" and clients = sample_clients and files = sample_files
      and acc = "''standard''" and diarize = False]
  note u = batch_failure_isolation [OF k, where py_str = "\<lambda>_. []"
      and media_exists = "\<lambda>_. True" and clients = sample_clients_cancelled
      and files = sample_files and acc = "''standard''" and diarize = False]
  obtain rs where rs:
    "transcribe_batch_call (\<lambda>_. []) (\<lambda>_. True) sample_clients sample_files ''standard'' 2
       False sample_events = Inr (Some rs)"
    using sample_call_returns by blast
  obtain rs' where rs':
    "transcribe_batch_call (\<lambda>_. []) (\<lambda>_. True) sample_clients_reset sample_files
       ''standard'' 3 False [Acquire 2, Acquire 1, Acquire 0, Finish 0, Finish 1, Finish 2]
     = Inr (Some rs')"
    using sample_reset_returns by blast
  have same: "sample_clients_reset 1 = sample_clients 1"
    by (simp add: sample_clients_reset_def)
  have l: "(0::nat) < length sample_files" "(1::nat) < length sample_files"
    "(2::nat) < length sample_files" "length sample_files = 3"
    by (simp_all add: sample_files_def)
  from t rs have len: "length rs = length sample_files"
    and each: "\<forall>j<length sample_files.
        (\<forall>clients' k' evs' rs'.
            transcribe_batch_call (\<lambda>_. []) (\<lambda>_. True) clients' sample_files ''standard'' k'
              False evs' = Inr (Some rs')
            \<and> clients' j = sample_clients j
            \<longrightarrow> rs' ! j = rs ! j)
        \<and> (case calls (sample_clients j) of
              Handled (Completed jid result) \<Rightarrow>
                status (rs ! j)
                  = (if (\<lambda>_. True) (fst (sample_files ! j)) then ''success'' else ''error'')
            | Handled (RaisesHTTPStatusError e) \<Rightarrow>
                status (rs ! j) = ''error''
                \<and> error_message (rs ! j)
                    = Some (if (\<lambda>_. True) (fst (sample_files ! j))
                            then handle_http_error (\<lambda>_. []) e
                            else ''File not found: '' @ fst (sample_files ! j))
            | Handled (RaisesException msg) \<Rightarrow>
                status (rs ! j) = ''error''
                \<and> error_message (rs ! j)
                    = Some (if (\<lambda>_. True) (fst (sample_files ! j)) then msg
                            else ''File not found: '' @ fst (sample_files ! j))
            | RaisesBaseException x \<Rightarrow>
                status (rs ! j) = ''error''
                \<and> error_message (rs ! j)
                    = Some (''File not found: '' @ fst (sample_files ! j)))"
    by blast+
  from len l have len3: "length rs = 3" by simp
  note e0 = each [rule_format, OF l(1)] and e1 = each [rule_format, OF l(2)]
    and e2 = each [rule_format, OF l(3)]
  from e1 rs' same have iso: "rs' ! 1 = rs ! 1" by blast
  from e0 have s0: "status (rs ! 0) = ''success''"
    by (simp add: sample_clients_def sample_remote_def)
  from e1 have s1: "status (rs ! 1) = ''error''"
    "error_message (rs ! 1)
       = Some ''Rate limited by Speechmatics API. Please wait and try again.''"
    by (simp_all add: sample_clients_def sample_remote_def handle_http_error_def)
  from e2 have s2: "status (rs ! 2) = ''success''"
    by (simp add: sample_clients_def sample_remote_def)
  from t all have never:
    "transcribe_batch_call (\<lambda>_. []) (\<lambda>_. True) sample_clients sample_files ''standard'' 2
        False [Acquire 0, Acquire 1] \<noteq> Inl (ItemRaised 1 (BaseRaised ''CancelledError''))"
    by blast
  have reach: "run_calls (nat 2)
      (transcribe_item_call (\<lambda>_. []) (\<lambda>_. True) sample_clients_cancelled sample_files
         ''standard'' False)
      sample_files [Acquire 0, Acquire 1] (initial_state sample_files)
      = Inr (Some \<lparr>tasks = [Running, Running, Waiting], completed = 0, progress = []\<rparr>)"
    by (simp add: initial_state_def step_call_def running_count_def sample_files_def)
  have esc: "transcribe_item_call (\<lambda>_. []) (\<lambda>_. True) sample_clients_cancelled sample_files
      ''standard'' False 1 = Inl (BaseRaised ''CancelledError'')"
    by (simp add: transcribe_item_call_def transcribe_call_def sample_clients_cancelled_def)
  have run1: "tasks \<lparr>tasks = [Running, Running, Waiting], completed = 0, progress = []\<rparr> ! 1
      = Running" by simp
  from u reach l(2) run1 esc have raised:
    "transcribe_batch_call (\<lambda>_. []) (\<lambda>_. True) sample_clients_cancelled sample_files
        ''standard'' 2 False ([Acquire 0, Acquire 1] @ Finish 1 # [Acquire 2])
       = Inl (ItemRaised 1 (BaseRaised ''CancelledError''))"
    by blast
  from k c rs rs' same len3 iso s0 s1 s2 never raised show ?thesis by blast
qed

text \<open>
  Claim C8 as stated fails: when the remote call of the second of three items is
  cancelled, the exception leaves the item and the batch raises it; no list of outcomes
  is returned, whatever the order of the events.
\<close>

theorem batch_abort_counterexample:
  "calls (sample_clients_cancelled 1) = RaisesBaseException ''CancelledError''
   \<and> transcribe_batch_call (\<lambda>_. []) (\<lambda>_. True) sample_clients_cancelled sample_files
        ''standard'' 2 False sample_events
       = Inl (ItemRaised 1 (BaseRaised ''CancelledError''))
   \<and> transcribe_batch_call (\<lambda>_. []) (\<lambda>_. True) sample_clients_cancelled sample_files
        ''standard'' 2 False [Acquire 0, Finish 0, Acquire 1, Finish 1, Acquire 2, Finish 2]
       = Inl (ItemRaised 1 (BaseRaised ''CancelledError''))"
  by (simp add: transcribe_batch_call_def initial_state_def step_call_def running_count_def
      sample_files_def sample_events_def transcribe_item_call_def transcribe_call_def
      sample_clients_cancelled_def sample_clients_def)

section \<open>The report of a directory\<close>

lemma process_results_total:
  "snd (snd (snd (snd (process_results json_dump clock with_timestamps rs n
                        (fs, entries, processed, failed, tot)))))
     = tot + sum_list (map duration_seconds (filter is_success rs))"
proof (induction rs arbitrary: n fs entries processed failed tot)
  case Nil
  show ?case by simp
next
  case (Cons r rs)
  show ?case
  proof (cases "status r = ''success''")
    case True
    then show ?thesis
      by (simp add: Cons.IH is_success_def split: prod.splits)
  next
    case False
    then show ?thesis
      by (simp add: Cons.IH is_success_def)
  qed
qed

text \<open>
  Claim C1, as amended. The total duration of the report is the sum of the durations of
  the Success outcomes of the list; the loop adds nothing for a Failure outcome.
\<close>

theorem total_duration_of_successes:
  "total_duration_seconds (snd (report_results json_dump clock with_timestamps fs rs))
     = sum_list (map duration_seconds (filter is_success rs))"
proof -
  obtain fs' entries processed failed tot where
    p: "process_results json_dump clock with_timestamps rs 0 (fs, [], 0, 0, 0)
          = (fs', entries, processed, failed, tot)"
    by (cases "process_results json_dump clock with_timestamps rs 0 (fs, [], 0, 0, 0)") auto
  from process_results_total [of json_dump clock with_timestamps rs 0 fs "[]" 0 0 0] p
  have "tot = sum_list (map duration_seconds (filter is_success rs))" by simp
  with p show ?thesis by (simp add: report_results_def)
qed

lemma failed_result_eq:
  "failed_result =
     \<lparr>file_path = ''b.mp3'', transcript = [], words = None, duration_seconds = 20,
      accuracy = ''standard'', diarization = False, status = ''error'',
      error_message = Some ''Rate limited by Speechmatics API. Please wait and try again.'',
      job_id = None\<rparr>"
  by (simp add: failed_result_def transcribe_def or_zero_def handle_http_error_def)

text \<open>
  Claim C1 as stated fails: for the one Failure outcome \<open>failed_result\<close>, whose duration is
  20, the total of the report is 0 and not 20.
\<close>

theorem total_duration_counterexample:
  "status failed_result = ''error''
   \<and> duration_seconds failed_result = 20
   \<and> total_duration_seconds
       (snd (report_results (\<lambda>_. []) (\<lambda>_. []) False Map.empty [failed_result])) = 0
   \<and> total_duration_seconds
       (snd (report_results (\<lambda>_. []) (\<lambda>_. []) False Map.empty [failed_result]))
       \<noteq> sum_list (map duration_seconds [failed_result])"
  by (simp add: report_results_def failed_result_eq)

section \<open>Word extraction and HTTP errors\<close>

lemma extract_words_loop_filter:
  "extract_words_loop items acc
     = acc @ map (\<lambda>item. word_entry item (hd (item_alternatives item)))
               (filter usable_word items)"
proof (induction items arbitrary: acc)
  case Nil
  show ?case by simp
next
  case (Cons item rest)
  show ?case
    by (cases "alternatives item")
       (auto simp: Cons.IH usable_word_def item_alternatives_def split: list.splits)
qed

text \<open>
  Claim C6. Word extraction never returns an empty list: it returns nothing when the
  payload has no results or when no item is a word with an alternative, and otherwise the
  entries of exactly the items of type \<open>word\<close> with a non-empty list of alternatives,
  in their order, each built from the item and its first alternative. The \<open>words\<close> of
  the outcome of a completed transcription are this value.
\<close>

theorem extract_words_keeps_usable:
  "extract_words result \<noteq> Some []
   \<and> extract_words result =
       (case results result of
          None \<Rightarrow> None
        | Some items \<Rightarrow>
            if filter usable_word items = [] then None
            else Some (map (\<lambda>item. word_entry item (hd (item_alternatives item)))
                        (filter usable_word items)))
   \<and> words (transcribe py_str media_exists (Completed jid result) path acc d diarize)
       = (if media_exists path then extract_words result else None)"
  by (simp add: extract_words_def extract_words_loop_filter transcribe_def Let_def
      split: option.splits)

text \<open>
  Claim C7. When the remote call of an existing file raises an HTTP status error, the
  outcome is a Failure whose message is the classification of the status code: 429 rate
  limited, 403 quota or key, 401 invalid key, 400 an invalid request with the detail (the
  \<open>detail\<close> entry of the response when it has one, as it is when it is a string), and any
  other code an API error with the code and the text of the error.
\<close>

theorem http_error_classified:
  assumes "media_exists path"
  shows "status (transcribe py_str media_exists (RaisesHTTPStatusError e) path acc d diarize)
           = ''error''
       \<and> error_message
           (transcribe py_str media_exists (RaisesHTTPStatusError e) path acc d diarize)
           = Some (handle_http_error py_str e)
       \<and> (status_code e = 429 \<longrightarrow> handle_http_error py_str e
             = ''Rate limited by Speechmatics API. Please wait and try again.'')
       \<and> (status_code e = 403 \<longrightarrow> handle_http_error py_str e
             = ''API quota exceeded or invalid API key. Check your Speechmatics account.'')
       \<and> (status_code e = 401 \<longrightarrow> handle_http_error py_str e
             = ''Invalid Speechmatics API key.'')
       \<and> (status_code e = 400 \<longrightarrow> handle_http_error py_str e
             = ''Invalid request: '' @ error_detail py_str e)
       \<and> (status_code e = 400 \<longrightarrow>
            (\<forall>items v. response_json e = Some (JObj items)
                \<and> map_of items ''detail'' = Some (JStr v)
              \<longrightarrow> error_detail py_str e = v))
       \<and> (status_code e \<notin> {429, 403, 401, 400} \<longrightarrow> handle_http_error py_str e
             = ''API error ('' @ str_int (status_code e) @ ''): '' @ error_text e)"
  using assms
  by (simp add: transcribe_def handle_http_error_def error_detail_def json_get_def
      format_value_def)

theorem http_error_classified_witness:
  "status (transcribe (\<lambda>_. []) (\<lambda>_. True)
             (RaisesHTTPStatusError
                \<lparr>status_code = 429, error_text = ''boom'', response_json = None\<rparr>)
             ''a.mp3'' ''standard'' (Some 10) False) = ''error''
   \<and> error_message (transcribe (\<lambda>_. []) (\<lambda>_. True)
             (RaisesHTTPStatusError
                \<lparr>status_code = 429, error_text = ''boom'', response_json = None\<rparr>)
             ''a.mp3'' ''standard'' (Some 10) False)
       = Some ''Rate limited by Speechmatics API. Please wait and try again.''
   \<and> handle_http_error (\<lambda>_. [])
         \<lparr>status_code = 403, error_text = ''boom'', response_json = None\<rparr>
       = ''API quota exceeded or invalid API key. Check your Speechmatics account.''
   \<and> handle_http_error (\<lambda>_. [])
         \<lparr>status_code = 401, error_text = ''boom'', response_json = None\<rparr>
       = ''Invalid Speechmatics API key.''
   \<and> handle_http_error (\<lambda>_. [])
         \<lparr>status_code = 400, error_text = ''boom'',
          response_json = Some (JObj [(''detail'', JStr ''bad language'')])\<rparr>
       = ''Invalid request: bad language''
   \<and> handle_http_error (\<lambda>_. [])
         \<lparr>status_code = 500, error_text = ''boom'', response_json = None\<rparr>
       = ''API error (500): boom''"
proof -
  have ex: "(\<lambda>_::string. True) ''a.mp3''" by simp
  note t = http_error_classified [of "\<lambda>_. True" "''a.mp3''" "\<lambda>_. []" _ "''standard''"
      "Some 10" False, OF ex]
  have a: "status (transcribe (\<lambda>_. []) (\<lambda>_. True)
             (RaisesHTTPStatusError
                \<lparr>status_code = 429, error_text = ''boom'', response_json = None\<rparr>)
             ''a.mp3'' ''standard'' (Some 10) False) = ''error''"
    and b: "error_message (transcribe (\<lambda>_. []) (\<lambda>_. True)
             (RaisesHTTPStatusError
                \<lparr>status_code = 429, error_text = ''boom'', response_json = None\<rparr>)
             ''a.mp3'' ''standard'' (Some 10) False)
       = Some ''Rate limited by Speechmatics API. Please wait and try again.''"
    using t [of "\<lparr>status_code = 429, error_text = ''boom'', response_json = None\<rparr>"]
    by simp_all
  have c: "handle_http_error (\<lambda>_. [])
         \<lparr>status_code = 403, error_text = ''boom'', response_json = None\<rparr>
       = ''API quota exceeded or invalid API key. Check your Speechmatics account.''"
    using t [of "\<lparr>status_code = 403, error_text = ''boom'', response_json = None\<rparr>"]
    by simp
  have d: "handle_http_error (\<lambda>_. [])
         \<lparr>status_code = 401, error_text = ''boom'', response_json = None\<rparr>
       = ''Invalid Speechmatics API key.''"
    using t [of "\<lparr>status_code = 401, error_text = ''boom'', response_json = None\<rparr>"]
    by simp
  have e: "handle_http_error (\<lambda>_. [])
         \<lparr>status_code = 400, error_text = ''boom'',
          response_json = Some (JObj [(''detail'', JStr ''bad language'')])\<rparr>
       = ''Invalid request: bad language''"
    using t [of "\<lparr>status_code = 400, error_text = ''boom'',
          response_json = Some (JObj [(''detail'', JStr ''bad language'')])\<rparr>"]
    by simp
  have f: "handle_http_error (\<lambda>_. [])
         \<lparr>status_code = 500, error_text = ''boom'', response_json = None\<rparr>
       = ''API error (500): boom''"
    using t [of "\<lparr>status_code = 500, error_text = ''boom'', response_json = None\<rparr>"]
    by (simp add: str_int_def str_nat.simps digit_char_def)
  from a b c d e f show ?thesis by blast
qed

section \<open>The plain-text format\<close>

lemma endswith_append:
  "length s' \<le> length s \<Longrightarrow> endswith (p @ s) s' = endswith s s'"
  by (simp add: endswith_def)

lemma endswith_txt [simp]:
  "endswith (p @ ''.transcript.txt'') ''.transcript.txt''"
  "\<not> endswith (p @ ''.transcript.txt'') ''.json''"
  by (simp_all add: endswith_append) (simp_all add: endswith_def)

lemma endswith_json [simp]:
  "\<not> endswith (p @ ''.transcript.json'') ''.transcript.txt''"
  "endswith (p @ ''.transcript.json'') ''.transcript.json''"
  "endswith (p @ ''.transcript.json'') ''.json''"
  by (simp_all add: endswith_append) (simp_all add: endswith_def)

lemma header_lines:
  assumes "CHR 0x0A \<notin> set ts" "CHR 0x0A \<notin> set name" "CHR 0x0A \<notin> set dstr"
  shows "py_split CHR 0x0A (text_header ts name dstr acc @ rest)
           = (''# Transcribed: '' @ ts) # (''# Source: '' @ name) # (''# Duration: '' @ dstr)
             # py_split CHR 0x0A (''# Accuracy: '' @ acc @ ''\<newline>\<newline>'' @ rest)"
proof -
  have e: "text_header ts name dstr acc @ rest
      = (''# Transcribed: '' @ ts) @ CHR 0x0A # ((''# Source: '' @ name) @ CHR 0x0A #
          ((''# Duration: '' @ dstr) @ CHR 0x0A #
            (''# Accuracy: '' @ acc @ ''\<newline>\<newline>'' @ rest)))"
    by (simp add: text_header_def)
  have n1: "CHR 0x0A \<notin> set (''# Transcribed: '' @ ts)" using assms by simp
  have n2: "CHR 0x0A \<notin> set (''# Source: '' @ name)" using assms by simp
  have n3: "CHR 0x0A \<notin> set (''# Duration: '' @ dstr)" using assms by simp
  show ?thesis
    unfolding e py_split_append [OF n1] py_split_append [OF n2] py_split_append [OF n3] ..
qed

lemma accuracy_lines:
  assumes "CHR 0x0A \<notin> set acc"
  shows "py_split CHR 0x0A (''# Accuracy: '' @ acc @ ''\<newline>\<newline>'' @ rest)
           = (''# Accuracy: '' @ acc) # [] # py_split CHR 0x0A rest"
proof -
  have e: "''# Accuracy: '' @ acc @ ''\<newline>\<newline>'' @ rest
             = (''# Accuracy: '' @ acc) @ CHR 0x0A # (CHR 0x0A # rest)"
    by simp
  have n: "CHR 0x0A \<notin> set (''# Accuracy: '' @ acc)" using assms by simp
  show ?thesis unfolding e py_split_append [OF n] by simp
qed

lemma header_no_cr:
  assumes "CHR 0x0D \<notin> set ts" "CHR 0x0D \<notin> set name" "CHR 0x0D \<notin> set dstr"
    "CHR 0x0D \<notin> set acc"
  shows "CHR 0x0D \<notin> set (text_header ts name dstr acc)"
  using assms by (simp add: text_header_def)

lemma duration_loop_header:
  "duration_loop (take 5 ((''# Transcribed: '' @ ts) # (''# Source: '' @ name)
       # (''# Duration: '' @ dstr) # others))
     = parse_duration_line (''# Duration: '' @ dstr)"
  by (simp add: startswith_def)

lemma split1_second_duration:
  "split1_second CHR '':'' (''# Duration: '' @ dstr) = Some (CHR '' '' # dstr)"
  by (simp add: split1_second_def)

lemma parse_duration_line_unknown:
  "parse_duration_line ''# Duration: unknown'' = Inr None"
  by (simp add: parse_duration_line_def split1_second_def py_strip_def is_space_def)

lemma digit_group_not_space:
  assumes "digit_group a"
  shows "\<not> is_space (hd a)" "\<not> is_space (last a)" "CHR '':'' \<notin> set a" "a \<noteq> []"
proof -
  from assms have ne: "a \<noteq> []" and all: "\<forall>c\<in>set a. is_digit c"
    by (simp_all add: digit_group_def list_all_iff)
  from ne all have "is_digit (hd a)" "is_digit (last a)" by simp_all
  then show "\<not> is_space (hd a)" "\<not> is_space (last a)"
    by (simp_all add: is_digit_not_space)
  have "\<not> is_digit CHR '':''" by (simp add: is_digit_def)
  with all show "CHR '':'' \<notin> set a" by blast
  show "a \<noteq> []" by (rule ne)
qed

lemma py_int_digit_group: "digit_group a \<Longrightarrow> py_int a = Some (int (digits_val a))"
  by (simp add: digit_group_def py_int_digits)

lemma parse_duration_line_two:
  assumes a: "digit_group a" and b: "digit_group b"
  shows "parse_duration_line (''# Duration: '' @ a @ '':'' @ b)
           = Inr (Some (int (digits_val a) * 60 + int (digits_val b)))"
proof -
  let ?d = "a @ '':'' @ b"
  have ne: "?d \<noteq> []" using digit_group_not_space(4) [OF a] by simp
  have h: "hd ?d = hd a" using digit_group_not_space(4) [OF a] by simp
  have l: "last ?d = last b" using digit_group_not_space(4) [OF b] by simp
  have strip: "py_strip (CHR '' '' # ?d) = ?d"
    using py_strip_id [OF ne] h l digit_group_not_space(1) [OF a] digit_group_not_space(2) [OF b]
    by (simp add: py_strip_space_Cons is_space_def)
  have parts: "py_split CHR '':'' ?d = [a, b]"
    using py_split_append [OF digit_group_not_space(3) [OF a], of b]
      py_split_no_sep [OF digit_group_not_space(3) [OF b]] by simp
  show ?thesis
    unfolding parse_duration_line_def split1_second_duration
    by (simp add: strip parts py_int_digit_group a b del: append.simps)
qed

lemma parse_duration_line_three:
  assumes a: "digit_group a" and b: "digit_group b" and c: "digit_group c"
  shows "parse_duration_line (''# Duration: '' @ a @ '':'' @ b @ '':'' @ c)
           = Inr (Some (int (digits_val a) * 3600 + int (digits_val b) * 60
                        + int (digits_val c)))"
proof -
  let ?d = "a @ '':'' @ b @ '':'' @ c"
  have ne: "?d \<noteq> []" using digit_group_not_space(4) [OF a] by simp
  have h: "hd ?d = hd a" using digit_group_not_space(4) [OF a] by simp
  have l: "last ?d = last c" using digit_group_not_space(4) [OF c] by simp
  have strip: "py_strip (CHR '' '' # ?d) = ?d"
    using py_strip_id [OF ne] h l digit_group_not_space(1) [OF a] digit_group_not_space(2) [OF c]
    by (simp add: py_strip_space_Cons is_space_def)
  have parts: "py_split CHR '':'' ?d = [a, b, c]"
    using py_split_append [OF digit_group_not_space(3) [OF a], of "b @ '':'' @ c"]
      py_split_append [OF digit_group_not_space(3) [OF b], of c]
      py_split_no_sep [OF digit_group_not_space(3) [OF c]] by simp
  show ?thesis
    unfolding parse_duration_line_def split1_second_duration
    by (simp add: strip parts py_int_digit_group a b c del: append.simps)
qed

lemma digit_group_str_nat: "digit_group (str_nat n)"
  by (simp add: digit_group_def str_nat_not_Nil str_nat_digits)

lemma digit_group_str_int:
  "0 \<le> i \<Longrightarrow> digit_group (str_int i) \<and> digits_val (str_int i) = nat i"
  by (simp add: str_int_def digit_group_str_nat digits_val_str_nat)

lemma digit_group_format_02d:
  assumes "0 \<le> i"
  shows "digit_group (format_02d i) \<and> digits_val (format_02d i) = nat i"
proof -
  have "is_digit CHR ''0''" by (simp add: is_digit_def)
  then have "list_all is_digit (replicate k CHR ''0'')" for k
    by (simp add: list_all_iff)
  then show ?thesis
    using assms digit_group_str_nat [of "nat i"]
    by (simp add: format_02d_def zfill_def digit_group_def digits_val_zeros digits_val_str_nat)
qed

lemma hms_split:
  fixes n :: int
  shows "n = (n div 3600) * 3600 + ((n mod 3600) div 60) * 60 + n mod 60"
proof -
  define h where "h = n div 3600"
  define r where "r = n mod 3600"
  define m where "m = r div 60"
  define s where "s = r mod 60"
  have a: "n = h * 3600 + r" unfolding h_def r_def by simp
  have b: "r = m * 60 + s" unfolding m_def s_def by simp
  have c: "s = n mod 60" unfolding s_def r_def by (rule mod_mod_cancel) simp
  from a b have "n = h * 3600 + m * 60 + s" by simp
  then show ?thesis unfolding c unfolding h_def m_def r_def .
qed

lemma parse_formatted_duration:
  assumes "0 < d"
  shows "parse_duration_line (''# Duration: '' @ format_duration d) = Inr (Some \<lfloor>d\<rfloor>)"
proof -
  define n where "n = \<lfloor>d\<rfloor>"
  define h where "h = n div 3600"
  define m where "m = (n mod 3600) div 60"
  define s where "s = n mod 60"
  have n: "0 \<le> n" using assms by (simp add: n_def)
  then have h: "0 \<le> h" by (simp add: h_def pos_imp_zdiv_nonneg_iff)
  have m: "0 \<le> m" by (simp add: m_def pos_imp_zdiv_nonneg_iff)
  have s: "0 \<le> s" by (simp add: s_def)
  have split: "n = h * 3600 + m * 60 + s"
    unfolding h_def m_def s_def by (rule hms_split)
  have fmt: "format_duration d =
      (if h > 0 then str_int h @ '':'' @ format_02d m @ '':'' @ format_02d s
       else str_int m @ '':'' @ format_02d s)"
    by (simp only: format_duration_floor Let_def n_def h_def m_def s_def)
  note gh = digit_group_str_int [OF h] and gm = digit_group_str_int [OF m]
    and fm = digit_group_format_02d [OF m] and fs = digit_group_format_02d [OF s]
  show ?thesis
  proof (cases "0 < h")
    case True
    then have "format_duration d = str_int h @ '':'' @ format_02d m @ '':'' @ format_02d s"
      by (simp only: fmt if_True)
    moreover have "parse_duration_line
        (''# Duration: '' @ str_int h @ '':'' @ format_02d m @ '':'' @ format_02d s)
        = Inr (Some (int (digits_val (str_int h)) * 3600 + int (digits_val (format_02d m)) * 60
                     + int (digits_val (format_02d s))))"
      using gh fm fs by (intro parse_duration_line_three) auto
    moreover have "int (digits_val (str_int h)) = h" "int (digits_val (format_02d m)) = m"
      "int (digits_val (format_02d s)) = s"
      using gh fm fs h m s by simp_all
    ultimately show ?thesis
      using split by (simp only: n_def [symmetric])
  next
    case False
    with h have h0: "h = 0" by simp
    from False have "format_duration d = str_int m @ '':'' @ format_02d s"
      by (simp only: fmt if_False)
    moreover have "parse_duration_line (''# Duration: '' @ str_int m @ '':'' @ format_02d s)
        = Inr (Some (int (digits_val (str_int m)) * 60 + int (digits_val (format_02d s))))"
      using gm fs by (intro parse_duration_line_two) auto
    moreover have "int (digits_val (str_int m)) = m" "int (digits_val (format_02d s)) = s"
      using gm fs m s by simp_all
    moreover have "n = m * 60 + s" using split h0 by simp
    ultimately show ?thesis
      by (simp only: n_def [symmetric])
  qed
qed

lemma handle_get_written_txt:
  "handle_get_transcript json_loads (fs(p @ ''.transcript.txt'' \<mapsto> text)) (p @ ''.transcript.txt'')
     = read_text_transcript p (universal_newlines text)"
  by (simp add: handle_get_transcript_def)

lemma handle_get_written_json:
  "handle_get_transcript json_loads (fs(p @ ''.transcript.json'' \<mapsto> text))
       (p @ ''.transcript.json'')
     = read_json_transcript json_loads p (universal_newlines text)"
  by (simp add: handle_get_transcript_def)

lemma read_lines_prefix:
  assumes "line_break_free ts" "line_break_free name" "line_break_free dstr"
  shows "py_split CHR 0x0A (universal_newlines (text_header ts name dstr acc @ rest))
           = (''# Transcribed: '' @ ts) # (''# Source: '' @ name) # (''# Duration: '' @ dstr)
             # py_split CHR 0x0A
                 (universal_newlines (''# Accuracy: '' @ acc @ ''\<newline>\<newline>'' @ rest))"
proof -
  let ?P = "(''# Transcribed: '' @ ts) @ CHR 0x0A # (''# Source: '' @ name) @ CHR 0x0A #
              (''# Duration: '' @ dstr) @ [CHR 0x0A]"
  let ?X = "''# Accuracy: '' @ acc @ ''\<newline>\<newline>'' @ rest"
  have e: "text_header ts name dstr acc @ rest = ?P @ ?X"
    by (simp add: text_header_def)
  have cr: "CHR 0x0D \<notin> set ?P"
    using assms by (simp add: line_break_free_def)
  have u: "universal_newlines (?P @ ?X) = ?P @ universal_newlines ?X"
    using cr by (rule universal_newlines_append)
  have e2: "?P @ universal_newlines ?X
      = (''# Transcribed: '' @ ts) @ CHR 0x0A # ((''# Source: '' @ name) @ CHR 0x0A #
          ((''# Duration: '' @ dstr) @ CHR 0x0A # universal_newlines ?X))"
    by simp
  have n1: "CHR 0x0A \<notin> set (''# Transcribed: '' @ ts)"
    using assms by (simp add: line_break_free_def)
  have n2: "CHR 0x0A \<notin> set (''# Source: '' @ name)"
    using assms by (simp add: line_break_free_def)
  have n3: "CHR 0x0A \<notin> set (''# Duration: '' @ dstr)"
    using assms by (simp add: line_break_free_def)
  show ?thesis
    unfolding e u e2 py_split_append [OF n1] py_split_append [OF n2] py_split_append [OF n3] ..
qed

lemma read_text_duration:
  assumes "line_break_free ts" "line_break_free name" "line_break_free dstr"
  shows "map_sum id reply_duration_seconds
           (read_text_transcript src (universal_newlines (text_header ts name dstr acc @ rest)))
         = (case parse_duration_line (''# Duration: '' @ dstr) of
              Inl e \<Rightarrow> Inl (FailedToRead e)
            | Inr dur \<Rightarrow>
                Inr (case dur of None \<Rightarrow> JNull | Some n \<Rightarrow> JNum (of_int n)))"
  unfolding read_text_transcript_def Let_def read_lines_prefix [OF assms] duration_loop_header
  by (simp split: sum.splits)

lemma read_text_whole:
  assumes "line_break_free ts" "line_break_free name" "line_break_free dstr"
    and "line_break_free acc" and "CHR 0x0D \<notin> set body"
  shows "read_text_transcript src (universal_newlines (text_header ts name dstr acc @ body))
         = (case parse_duration_line (''# Duration: '' @ dstr) of
              Inl e \<Rightarrow> Inl (FailedToRead e)
            | Inr dur \<Rightarrow>
                Inr \<lparr>reply_transcript = JStr (py_strip body),
                     reply_source_media = src,
                     reply_duration_seconds =
                       (case dur of None \<Rightarrow> JNull | Some n \<Rightarrow> JNum (of_int n)),
                     reply_has_timestamps = False,
                     reply_word_count = None\<rparr>)"
proof -
  let ?X = "''# Accuracy: '' @ acc @ ''\<newline>\<newline>'' @ body"
  have "CHR 0x0D \<notin> set ?X"
    using assms(4,5) by (simp add: line_break_free_def)
  then have u: "universal_newlines ?X = ?X" by (rule universal_newlines_id)
  have a: "py_split CHR 0x0A ?X = (''# Accuracy: '' @ acc) # [] # py_split CHR 0x0A body"
    using assms(4) by (intro accuracy_lines) (simp add: line_break_free_def)
  have loop: "transcript_lines_loop
      ((''# Transcribed: '' @ ts) # (''# Source: '' @ name) # (''# Duration: '' @ dstr)
         # (''# Accuracy: '' @ acc) # [] # py_split CHR 0x0A body) False []
      = py_split CHR 0x0A body"
    by (simp add: transcript_lines_loop_past)
  have j: "py_join ''\<newline>'' (py_split CHR 0x0A body) = body"
    by (rule py_join_split)
  show ?thesis
    unfolding read_text_transcript_def Let_def read_lines_prefix [OF assms(1,2,3)] u a
      duration_loop_header loop j ..
qed

lemma format_duration_chars:
  "c \<in> set (format_duration d) \<Longrightarrow> is_digit c \<or> c = CHR '':''"
proof -
  define n where "n = \<lfloor>d\<rfloor>"
  define h where "h = n div 3600"
  define m where "m = (n mod 3600) div 60"
  define s where "s = n mod 60"
  have m: "0 \<le> m" by (simp add: m_def pos_imp_zdiv_nonneg_iff)
  have s: "0 \<le> s" by (simp add: s_def)
  have fmt: "format_duration d =
      (if h > 0 then str_int h @ '':'' @ format_02d m @ '':'' @ format_02d s
       else str_int m @ '':'' @ format_02d s)"
    by (simp only: format_duration_floor Let_def n_def h_def m_def s_def)
  have dg: "digit_group g \<Longrightarrow> c \<in> set g \<Longrightarrow> is_digit c" for g
    by (simp add: digit_group_def list_all_iff)
  assume c: "c \<in> set (format_duration d)"
  show ?thesis
  proof (cases "0 < h")
    case True
    then have h: "0 \<le> h" by simp
    from c True have "c \<in> set (str_int h) \<or> c = CHR '':'' \<or> c \<in> set (format_02d m)
        \<or> c \<in> set (format_02d s)"
      by (auto simp: fmt)
    then show ?thesis
      using dg digit_group_str_int [OF h] digit_group_format_02d [OF m]
        digit_group_format_02d [OF s] by blast
  next
    case False
    with c have "c \<in> set (str_int m) \<or> c = CHR '':'' \<or> c \<in> set (format_02d s)"
      by (auto simp: fmt)
    then show ?thesis
      using dg digit_group_str_int [OF m] digit_group_format_02d [OF s] by blast
  qed
qed

lemma line_break_free_format_duration: "line_break_free (format_duration d)"
proof -
  have "\<not> is_digit CHR 0x0A" "\<not> is_digit CHR 0x0D" by (simp_all add: is_digit_def)
  then show ?thesis
    using format_duration_chars [of "CHR 0x0A" d] format_duration_chars [of "CHR 0x0D" d]
    by (auto simp: line_break_free_def)
qed

lemma line_break_free_duration_str: "line_break_free (duration_str_of d)"
  by (simp add: duration_str_of_def line_break_free_format_duration)
     (simp add: line_break_free_def)

lemma write_text_eq:
  "write_transcript_file json_dump timestamp fs r False
     = (fs(file_path r @ ''.transcript.txt'' \<mapsto>
            text_header timestamp (path_name (file_path r))
              (duration_str_of (duration_seconds r)) (accuracy r) @ transcript r),
        file_path r @ ''.transcript.txt'')"
  by (simp add: write_transcript_file_def get_transcript_path_def Let_def)

lemma write_json_eq:
  "write_transcript_file json_dump timestamp fs r True
     = (fs(file_path r @ ''.transcript.json'' \<mapsto>
            json_dump (json_output (path_name (file_path r)) timestamp r)),
        file_path r @ ''.transcript.json'')"
  by (simp add: write_transcript_file_def get_transcript_path_def Let_def)

lemma read_back_text:
  "read_back json_loads (write_transcript_file json_dump timestamp fs r False)
     = read_text_transcript (file_path r)
         (universal_newlines
            (text_header timestamp (path_name (file_path r))
               (duration_str_of (duration_seconds r)) (accuracy r) @ transcript r))"
  by (simp add: read_back_def write_text_eq handle_get_written_txt)

text \<open>
  Claim C4, as amended. Take an outcome with a non-negative duration whose time stamp,
  source file name and accuracy contain no line break and whose transcript contains no
  carriage return. Writing it in the plain-text format and reading the written file back
  yields the transcript with the whitespace at its two ends removed once, and as duration
  the whole seconds of the original duration when that is positive, which is what
  parsing the formatted duration gives, and no duration when it is zero.
\<close>

theorem text_round_trip:
  assumes "0 \<le> duration_seconds r"
    and "line_break_free timestamp"
    and "line_break_free (path_name (file_path r))"
    and "line_break_free (accuracy r)"
    and "CHR 0x0D \<notin> set (transcript r)"
  shows "read_back json_loads (write_transcript_file json_dump timestamp fs r False)
           = Inr \<lparr>reply_transcript = JStr (py_strip (transcript r)),
                  reply_source_media = file_path r,
                  reply_duration_seconds =
                    (if duration_seconds r = 0 then JNull
                     else JNum (of_int \<lfloor>duration_seconds r\<rfloor>)),
                  reply_has_timestamps = False,
                  reply_word_count = None\<rparr>
       \<and> (0 < duration_seconds r \<longrightarrow>
            parse_duration_line (''# Duration: '' @ format_duration (duration_seconds r))
              = Inr (Some \<lfloor>duration_seconds r\<rfloor>))"
proof (cases "duration_seconds r = 0")
  case True
  then have d: "duration_str_of (duration_seconds r) = ''unknown''"
    by (simp add: duration_str_of_def)
  have u: "line_break_free ''unknown''" by (simp add: line_break_free_def)
  have "read_back json_loads (write_transcript_file json_dump timestamp fs r False)
      = Inr \<lparr>reply_transcript = JStr (py_strip (transcript r)),
             reply_source_media = file_path r,
             reply_duration_seconds = JNull,
             reply_has_timestamps = False,
             reply_word_count = None\<rparr>"
    unfolding read_back_text d read_text_whole [OF assms(2,3) u assms(4,5)]
    by (simp add: parse_duration_line_unknown)
  with True show ?thesis by simp
next
  case False
  with assms(1) have pos: "0 < duration_seconds r" by simp
  have d: "duration_str_of (duration_seconds r) = format_duration (duration_seconds r)"
    using False by (simp add: duration_str_of_def)
  have p: "parse_duration_line (''# Duration: '' @ format_duration (duration_seconds r))
             = Inr (Some \<lfloor>duration_seconds r\<rfloor>)"
    using pos by (rule parse_formatted_duration)
  have "read_back json_loads (write_transcript_file json_dump timestamp fs r False)
      = Inr \<lparr>reply_transcript = JStr (py_strip (transcript r)),
             reply_source_media = file_path r,
             reply_duration_seconds = JNum (of_int \<lfloor>duration_seconds r\<rfloor>),
             reply_has_timestamps = False,
             reply_word_count = None\<rparr>"
    unfolding read_back_text d read_text_whole [OF assms(2,3)
        line_break_free_format_duration [of "duration_seconds r"] assms(4,5)] p
    by simp
  with False p show ?thesis by simp
qed

lemma sample_path_name: "path_name ''/media/a.mp3'' = ''a.mp3''"
  by (simp add: path_name_def)

theorem text_round_trip_witness:
  "0 \<le> duration_seconds sample_result
   \<and> 0 < duration_seconds sample_result
   \<and> line_break_free sample_timestamp
   \<and> line_break_free (path_name (file_path sample_result))
   \<and> line_break_free (accuracy sample_result)
   \<and> CHR 0x0D \<notin> set (transcript sample_result)
   \<and> read_back sample_loads
        (write_transcript_file sample_dump sample_timestamp Map.empty sample_result False)
       = Inr \<lparr>reply_transcript = JStr ''hello\<newline>\<newline>world'',
              reply_source_media = ''/media/a.mp3'',
              reply_duration_seconds = JNum 125,
              reply_has_timestamps = False,
              reply_word_count = None\<rparr>
   \<and> parse_duration_line ''# Duration: 2:05'' = Inr (Some 125)"
proof -
  have h1: "0 \<le> duration_seconds sample_result" by (simp add: sample_result_def)
  have h0: "0 < duration_seconds sample_result" by (simp add: sample_result_def)
  have h2: "line_break_free sample_timestamp"
    by (simp add: line_break_free_def sample_timestamp_def)
  have h3: "line_break_free (path_name (file_path sample_result))"
    by (simp add: sample_result_def sample_path_name line_break_free_def)
  have h4: "line_break_free (accuracy sample_result)"
    by (simp add: sample_result_def line_break_free_def)
  have h5: "CHR 0x0D \<notin> set (transcript sample_result)"
    by (simp add: sample_result_def)
  have s: "py_strip (transcript sample_result) = ''hello\<newline>\<newline>world''"
    by (simp add: sample_result_def py_strip_def is_space_def)
  have f: "format_duration 125 = ''2:05''"
    using format_duration_of_nat [of 125]
    by (simp add: str_nat.simps two_digits_def digit_char_def)
  have fp: "file_path sample_result = ''/media/a.mp3''"
    and dv: "duration_seconds sample_result = 125"
    by (simp_all add: sample_result_def)
  from text_round_trip [OF h1 h2 h3 h4 h5, where json_loads = sample_loads
      and json_dump = sample_dump and fs = Map.empty]
  have "read_back sample_loads
        (write_transcript_file sample_dump sample_timestamp Map.empty sample_result False)
       = Inr \<lparr>reply_transcript = JStr ''hello\<newline>\<newline>world'',
              reply_source_media = ''/media/a.mp3'',
              reply_duration_seconds = JNum 125,
              reply_has_timestamps = False,
              reply_word_count = None\<rparr>"
    and "parse_duration_line ''# Duration: 2:05'' = Inr (Some 125)"
    unfolding s fp dv by (simp_all add: f)
  with h0 h1 h2 h3 h4 h5 show ?thesis by blast
qed

text \<open>
  Claim C4 as stated fails for a duration of zero: the file read back has no duration,
  while zero formats to \<open>0:00\<close>, which parses to 0.
\<close>

theorem text_round_trip_counterexample:
  "read_back sample_loads
     (write_transcript_file sample_dump sample_timestamp Map.empty
        (sample_result\<lparr>duration_seconds := 0\<rparr>) False)
     = Inr \<lparr>reply_transcript = JStr ''hello\<newline>\<newline>world'',
            reply_source_media = ''/media/a.mp3'',
            reply_duration_seconds = JNull,
            reply_has_timestamps = False,
            reply_word_count = None\<rparr>
   \<and> format_duration 0 = ''0:00''
   \<and> parse_duration_line (''# Duration: '' @ format_duration 0) = Inr (Some 0)
   \<and> JNull \<noteq> JNum 0"
proof -
  have h2: "line_break_free sample_timestamp"
    by (simp add: line_break_free_def sample_timestamp_def)
  have h3: "line_break_free ''a.mp3''" "line_break_free ''standard''"
    "line_break_free ''unknown''"
    by (simp_all add: line_break_free_def)
  have h5: "CHR 0x0D \<notin> set '' hello\<newline>\<newline>world \<newline>''" by simp
  have s: "py_strip '' hello\<newline>\<newline>world \<newline>'' = ''hello\<newline>\<newline>world''"
    by (simp add: py_strip_def is_space_def)
  have fields: "file_path (sample_result\<lparr>duration_seconds := 0\<rparr>) = ''/media/a.mp3''"
    "accuracy (sample_result\<lparr>duration_seconds := 0\<rparr>) = ''standard''"
    "transcript (sample_result\<lparr>duration_seconds := 0\<rparr>) = '' hello\<newline>\<newline>world \<newline>''"
    "duration_str_of (duration_seconds (sample_result\<lparr>duration_seconds := 0\<rparr>)) = ''unknown''"
    by (simp_all add: sample_result_def duration_str_of_def)
  have a: "read_back sample_loads
     (write_transcript_file sample_dump sample_timestamp Map.empty
        (sample_result\<lparr>duration_seconds := 0\<rparr>) False)
     = Inr \<lparr>reply_transcript = JStr ''hello\<newline>\<newline>world'',
            reply_source_media = ''/media/a.mp3'',
            reply_duration_seconds = JNull,
            reply_has_timestamps = False,
            reply_word_count = None\<rparr>"
    unfolding read_back_text fields sample_path_name
      read_text_whole [OF h2 h3(1) h3(3) h3(2) h5]
    by (simp add: parse_duration_line_unknown s)
  have f: "format_duration 0 = ''0:00''"
    using format_duration_of_nat [of 0]
    by (simp add: str_nat.simps two_digits_def digit_char_def)
  have p: "parse_duration_line (''# Duration: '' @ format_duration 0) = Inr (Some 0)"
    unfolding f
    using parse_duration_line_two [of "''0''" "''00''"]
    by (simp add: digit_group_def is_digit_def digits_val_def digit_val_def)
  from a f p show ?thesis by simp
qed

lemma written_line_2:
  assumes "line_break_free timestamp" "line_break_free (path_name (file_path r))"
  shows "written_line 2 (write_transcript_file json_dump timestamp fs r False)
           = Some (''# Duration: '' @ duration_str_of (duration_seconds r))"
proof -
  have n: "CHR 0x0A \<notin> set timestamp" "CHR 0x0A \<notin> set (path_name (file_path r))"
    "CHR 0x0A \<notin> set (duration_str_of (duration_seconds r))"
    using assms line_break_free_duration_str [of "duration_seconds r"]
    by (simp_all add: line_break_free_def)
  show ?thesis
    unfolding written_line_def write_text_eq
    by (simp add: header_lines [OF n] del: append.simps)
qed

text \<open>
  Claim C10. When the time stamp and the source file name contain no line break, the
  third line of the plain-text file is \<open># Duration: unknown\<close> for a duration of zero,
  and reading the file back then gives no duration (\<open>None\<close>, not 0); for a positive
  duration the third line holds the formatted duration.
\<close>

theorem zero_duration_unknown:
  assumes "line_break_free timestamp" "line_break_free (path_name (file_path r))"
  shows "(duration_seconds r = 0 \<longrightarrow>
            written_line 2 (write_transcript_file json_dump timestamp fs r False)
              = Some ''# Duration: unknown''
            \<and> map_sum id reply_duration_seconds
                (read_back json_loads (write_transcript_file json_dump timestamp fs r False))
              = Inr JNull)
       \<and> (0 < duration_seconds r \<longrightarrow>
            written_line 2 (write_transcript_file json_dump timestamp fs r False)
              = Some (''# Duration: '' @ format_duration (duration_seconds r)))"
proof (intro conjI impI)
  assume z: "duration_seconds r = 0"
  then have d: "duration_str_of (duration_seconds r) = ''unknown''"
    by (simp add: duration_str_of_def)
  show "written_line 2 (write_transcript_file json_dump timestamp fs r False)
          = Some ''# Duration: unknown''"
    unfolding written_line_2 [OF assms] d by simp
  have u: "line_break_free ''unknown''" by (simp add: line_break_free_def)
  show "map_sum id reply_duration_seconds
          (read_back json_loads (write_transcript_file json_dump timestamp fs r False))
        = Inr JNull"
    unfolding read_back_text d read_text_duration [OF assms u]
    by (simp add: parse_duration_line_unknown)
next
  assume "0 < duration_seconds r"
  then have d: "duration_str_of (duration_seconds r) = format_duration (duration_seconds r)"
    by (simp add: duration_str_of_def)
  show "written_line 2 (write_transcript_file json_dump timestamp fs r False)
          = Some (''# Duration: '' @ format_duration (duration_seconds r))"
    unfolding written_line_2 [OF assms] d ..
qed

theorem zero_duration_unknown_witness:
  "line_break_free sample_timestamp
   \<and> line_break_free (path_name (file_path sample_result))
   \<and> line_break_free (path_name (file_path (sample_result\<lparr>duration_seconds := 0\<rparr>)))
   \<and> duration_seconds (sample_result\<lparr>duration_seconds := 0\<rparr>) = 0
   \<and> written_line 2
        (write_transcript_file sample_dump sample_timestamp Map.empty
           (sample_result\<lparr>duration_seconds := 0\<rparr>) False)
       = Some ''# Duration: unknown''
   \<and> map_sum id reply_duration_seconds
        (read_back sample_loads
           (write_transcript_file sample_dump sample_timestamp Map.empty
              (sample_result\<lparr>duration_seconds := 0\<rparr>) False))
       = Inr JNull
   \<and> 0 < duration_seconds sample_result
   \<and> written_line 2
        (write_transcript_file sample_dump sample_timestamp Map.empty sample_result False)
       = Some ''# Duration: 2:05''"
proof -
  have h1: "line_break_free sample_timestamp"
    by (simp add: line_break_free_def sample_timestamp_def)
  have h2: "line_break_free (path_name (file_path sample_result))"
    by (simp add: sample_result_def sample_path_name line_break_free_def)
  have h3: "line_break_free (path_name (file_path (sample_result\<lparr>duration_seconds := 0\<rparr>)))"
    by (simp add: sample_result_def sample_path_name line_break_free_def)
  have z: "duration_seconds (sample_result\<lparr>duration_seconds := 0\<rparr>) = 0" by simp
  have p: "0 < duration_seconds sample_result" by (simp add: sample_result_def)
  have dv: "duration_seconds sample_result = 125" by (simp add: sample_result_def)
  have f: "format_duration 125 = ''2:05''"
    using format_duration_of_nat [of 125]
    by (simp add: str_nat.simps two_digits_def digit_char_def)
  note t0 = zero_duration_unknown [OF h1 h3, where json_dump = sample_dump
      and json_loads = sample_loads and fs = Map.empty]
  note t1 = zero_duration_unknown [OF h1 h2, where json_dump = sample_dump
      and json_loads = sample_loads and fs = Map.empty]
  from t0 z have a: "written_line 2
        (write_transcript_file sample_dump sample_timestamp Map.empty
           (sample_result\<lparr>duration_seconds := 0\<rparr>) False)
       = Some ''# Duration: unknown''"
    and b: "map_sum id reply_duration_seconds
        (read_back sample_loads
           (write_transcript_file sample_dump sample_timestamp Map.empty
              (sample_result\<lparr>duration_seconds := 0\<rparr>) False))
       = Inr JNull"
    by blast+
  from t1 p have "written_line 2
        (write_transcript_file sample_dump sample_timestamp Map.empty sample_result False)
       = Some (''# Duration: '' @ format_duration (duration_seconds sample_result))"
    by blast
  then have c: "written_line 2
        (write_transcript_file sample_dump sample_timestamp Map.empty sample_result False)
       = Some ''# Duration: 2:05''"
    unfolding dv f by simp
  from h1 h2 h3 z a b p c show ?thesis by blast
qed

section \<open>The JSON format\<close>

lemma read_back_json:
  "read_back json_loads (write_transcript_file json_dump timestamp fs r True)
     = read_json_transcript json_loads (file_path r)
         (universal_newlines (json_dump (json_output (path_name (file_path r)) timestamp r)))"
  by (simp add: read_back_def write_json_eq handle_get_written_json)

lemma read_json_output:
  "read_json_transcript (\<lambda>_. Some (json_output name timestamp r)) src text
     = Inr \<lparr>reply_transcript = JStr (transcript r),
            reply_source_media = src,
            reply_duration_seconds = JNum (duration_seconds r),
            reply_has_timestamps = True,
            reply_word_count = Some (case words r of None \<Rightarrow> 0 | Some ws \<Rightarrow> length ws)\<rparr>"
  by (simp add: read_json_transcript_def json_output_def json_get_def json_get_none_def
      json_len_def split: option.splits)

text \<open>
  Claim C5. When \<open>json.loads\<close> returns the document that \<open>json.dump\<close> wrote, writing an
  outcome in the JSON format and reading the written file back succeeds with
  \<open>has_timestamps\<close> true and a word count equal to the length of the outcome's words,
  0 when it has none; and an outcome without words is written with an empty \<open>words\<close>
  array.
\<close>

theorem json_round_trip:
  assumes "json_loads
             (universal_newlines
                (json_dump (json_output (path_name (file_path r)) timestamp r)))
           = Some (json_output (path_name (file_path r)) timestamp r)"
  shows "read_back json_loads (write_transcript_file json_dump timestamp fs r True)
           = Inr \<lparr>reply_transcript = JStr (transcript r),
                  reply_source_media = file_path r,
                  reply_duration_seconds = JNum (duration_seconds r),
                  reply_has_timestamps = True,
                  reply_word_count =
                    Some (case words r of None \<Rightarrow> 0 | Some ws \<Rightarrow> length ws)\<rparr>
       \<and> json_get (json_output (path_name (file_path r)) timestamp (r\<lparr>words := None\<rparr>))
            ''words'' JNull
           = Inr (JArr [])"
proof -
  let ?doc = "json_output (path_name (file_path r)) timestamp r"
  let ?text = "universal_newlines (json_dump ?doc)"
  have "read_json_transcript json_loads (file_path r) ?text
      = read_json_transcript (\<lambda>_. Some ?doc) (file_path r) ?text"
    using assms by (simp add: read_json_transcript_def)
  then have "read_back json_loads (write_transcript_file json_dump timestamp fs r True)
      = read_json_transcript (\<lambda>_. Some ?doc) (file_path r) ?text"
    by (simp only: read_back_json)
  moreover have "json_get (json_output (path_name (file_path r)) timestamp (r\<lparr>words := None\<rparr>))
            ''words'' JNull = Inr (JArr [])"
    by (simp add: json_output_def json_get_def)
  ultimately show ?thesis
    by (simp only: read_json_output simp_thms)
qed

lemma sample_round_trip:
  "sample_loads
     (universal_newlines
        (sample_dump (json_output (path_name (file_path sample_result)) sample_timestamp
                        sample_result)))
   = Some (json_output (path_name (file_path sample_result)) sample_timestamp sample_result)"
proof -
  have "json_output (path_name (file_path sample_result)) sample_timestamp sample_result
      = sample_document"
    by (simp add: sample_document_def sample_result_def sample_path_name)
  then show ?thesis
    by (simp add: sample_dump_def sample_loads_def)
qed

theorem json_round_trip_witness:
  "sample_loads
     (universal_newlines
        (sample_dump (json_output (path_name (file_path sample_result)) sample_timestamp
                        sample_result)))
   = Some (json_output (path_name (file_path sample_result)) sample_timestamp sample_result)
   \<and> map_sum id reply_has_timestamps
        (read_back sample_loads
           (write_transcript_file sample_dump sample_timestamp Map.empty sample_result True))
       = Inr True
   \<and> map_sum id reply_word_count
        (read_back sample_loads
           (write_transcript_file sample_dump sample_timestamp Map.empty sample_result True))
       = Inr (Some 2)"
proof -
  note t = json_round_trip [where json_loads = sample_loads and json_dump = sample_dump
      and r = sample_result and timestamp = sample_timestamp and fs = Map.empty,
      OF sample_round_trip]
  have w: "words sample_result = Some sample_words" by (simp add: sample_result_def)
  from t have "map_sum id reply_has_timestamps
        (read_back sample_loads
           (write_transcript_file sample_dump sample_timestamp Map.empty sample_result True))
       = Inr True"
    and "map_sum id reply_word_count
        (read_back sample_loads
           (write_transcript_file sample_dump sample_timestamp Map.empty sample_result True))
       = Inr (Some 2)"
    by (simp_all add: w sample_words_def)
  with sample_round_trip show ?thesis by blast
qed

section \<open>Usage\<close>

text \<open>
  Claim C9, at a job created before the month began in UTC but on its first day by the
  clock of its own time zone: \<open>get_usage\<close> counts the job and its hour, although the
  instant of its creation is before the first instant of the month.
\<close>

theorem usage_counts_offset_timestamp:
  "get_usage round2 sample_fromisoformat sample_now (Inr [sample_job])
     = Inr \<lparr>hours_used_this_month = round2 1, jobs_this_month = 1\<rparr>
   \<and> utc_instant sample_created < utc_instant (month_start_of sample_now)"
  by (simp add: get_usage_def count_job_def replace_Z_def sample_job_def
      sample_fromisoformat_def sample_created_def sample_now_def month_start_of_def
      naive_ge_def naive_fields_def or_zero_def utc_instant_def days_from_civil_def)

lemma count_job_counted:
  "count_job fromisoformat month_start job counters =
     (if counted fromisoformat month_start job
      then (fst counters + 1, snd counters + or_zero (duration job))
      else counters)"
  by (simp add: count_job_def counted_def split: created.splits option.splits)

lemma usage_loop_counted:
  "usage_loop fromisoformat month_start jobs (n, tot)
     = (n + length (filter (counted fromisoformat month_start) jobs),
        tot + sum_list (map (\<lambda>job. or_zero (duration job))
                         (filter (counted fromisoformat month_start) jobs)))"
  by (induction jobs arbitrary: n tot) (simp_all add: count_job_counted)

text \<open>
  What \<open>get_usage\<close> reports for every list of jobs: the number of the counted jobs, and
  the rounded hours of the sum of their durations.
\<close>

theorem usage_counts_wall_clock:
  "get_usage round2 fromisoformat now (Inr jobs)
     = Inr \<lparr>hours_used_this_month =
              round2 (sum_list (map (\<lambda>job. or_zero (duration job))
                                 (filter (counted fromisoformat (month_start_of now)) jobs))
                      / 3600),
            jobs_this_month =
              length (filter (counted fromisoformat (month_start_of now)) jobs)\<rparr>"
  by (simp add: get_usage_def usage_loop_counted Let_def)

end
